theory Spec2Isabelle
  imports Main "HOL-Library.Word"
begin

unbundle bit_operations_syntax

section \<open>Machine types and configuration constants\<close>

type_synonym u8 = "8 word"
type_synonym u16 = "16 word"
type_synonym u32 = "32 word"

text \<open>
  A C \<^verbatim>\<open>float\<close> is modelled by its IEEE-754 binary32 bit pattern. The kernel itself
  reads floats as 32-bit integers (\<^verbatim>\<open>*(int*)&x\<close> in \<^verbatim>\<open>sqrtf\<close>), struct assignment
  copies bit patterns, and unary minus flips bit 31.
\<close>

type_synonym float = "32 word"

abbreviation HOLOGRAPHIC_DIMENSIONS :: nat where "HOLOGRAPHIC_DIMENSIONS \<equiv> 512"
abbreviation MAX_MEMORY_ENTRIES :: nat where "MAX_MEMORY_ENTRIES \<equiv> 128"
abbreviation MAX_ENTITIES :: nat where "MAX_ENTITIES \<equiv> 32"
abbreviation INITIAL_ENTITIES :: nat where "INITIAL_ENTITIES \<equiv> 3"
abbreviation MAX_ENTITY_DOMAINS :: nat where "MAX_ENTITY_DOMAINS \<equiv> 8"

section \<open>Single-precision arithmetic\<close>

text \<open>
  Binary32 arithmetic with every operation rounded to nearest, ties to even (the
  evaluation the C abstract machine prescribes for \<^verbatim>\<open>float\<close> operands when
  \<^verbatim>\<open>FLT_EVAL_METHOD\<close> is 0). Exact values are kept as fractions of integers.
\<close>

definition f32_sign :: "float \<Rightarrow> bool" where
  "f32_sign x = bit x 31"

definition f32_exp :: "float \<Rightarrow> nat" where
  "f32_exp x = unat (drop_bit 23 x AND 0xFF)"

definition f32_man :: "float \<Rightarrow> nat" where
  "f32_man x = unat (x AND 0x7FFFFF)"

definition f32_is_nan :: "float \<Rightarrow> bool" where
  "f32_is_nan x = (f32_exp x = 255 \<and> f32_man x \<noteq> 0)"

definition f32_is_inf :: "float \<Rightarrow> bool" where
  "f32_is_inf x = (f32_exp x = 255 \<and> f32_man x = 0)"

definition f32_is_zero :: "float \<Rightarrow> bool" where
  "f32_is_zero x = (x AND 0x7FFFFFFF = 0)"

text \<open>The comparison \<^verbatim>\<open>x != 0.0f\<close>: false exactly for the two zeros.\<close>

definition f32_nonzero :: "float \<Rightarrow> bool" where
  "f32_nonzero x = (\<not> f32_is_zero x)"

text \<open>Unary minus.\<close>

definition f32_neg :: "float \<Rightarrow> float" where
  "f32_neg x = x XOR 0x80000000"

text \<open>
  The magnitude of a non-NaN pattern as a fraction \<open>(p, q)\<close> with \<open>q > 0\<close>; an infinity
  reads as \<open>2 ^ 128\<close>, above every finite value.
\<close>

definition f32_mag :: "float \<Rightarrow> nat \<times> nat" where
  "f32_mag x =
     (let m = (if f32_exp x = 0 then f32_man x else 2 ^ 23 + f32_man x);
          e = (if f32_exp x = 0 then 1 else f32_exp x)
      in if 150 \<le> e then (m * 2 ^ (e - 150), 1) else (m, 2 ^ (150 - e)))"

fun bit_length :: "nat \<Rightarrow> nat" where
  "bit_length n = (if n = 0 then 0 else Suc (bit_length (n div 2)))"

declare bit_length.simps [simp del]

text \<open>
  Rounding the positive fraction \<open>p / q\<close> to binary32, nearest-even, with gradual
  underflow and overflow to infinity; the result is the pattern of the magnitude.
\<close>

definition f32_round :: "nat \<Rightarrow> nat \<Rightarrow> float" where
  "f32_round p q =
     (if p = 0 then 0
      else
        let e0 = int (bit_length p) - int (bit_length q);
            e = (if q * 2 ^ nat e0 \<le> p * 2 ^ nat (- e0) then e0 else e0 - 1);
            e' = max e (- 126);
            N = p * 2 ^ nat (23 - e');
            D = q * 2 ^ nat (e' - 23);
            m = N div D;
            r = N mod D;
            m' = (if D < 2 * r \<or> (2 * r = D \<and> odd m) then m + 1 else m);
            bits = nat (e' + 126) * 2 ^ 23 + m'
        in if 0x7F800000 \<le> bits then 0x7F800000 else of_nat bits)"

definition f32_pack :: "bool \<Rightarrow> float \<Rightarrow> float" where
  "f32_pack s x = (if s then x OR 0x80000000 else x)"

definition f32_default_nan :: float where
  "f32_default_nan = 0xFFC00000"

definition f32_quiet :: "float \<Rightarrow> float \<Rightarrow> float" where
  "f32_quiet a b = (if f32_is_nan a then a OR 0x00400000 else b OR 0x00400000)"

text \<open>The signed exact value of a non-NaN pattern.\<close>

definition f32_val :: "float \<Rightarrow> int \<times> nat" where
  "f32_val x =
     (let (p, q) = f32_mag x in (if f32_sign x then - int p else int p, q))"

definition f32_add :: "float \<Rightarrow> float \<Rightarrow> float" where
  "f32_add a b =
     (if f32_is_nan a \<or> f32_is_nan b then f32_quiet a b
      else if f32_is_inf a then
        (if f32_is_inf b \<and> f32_sign a \<noteq> f32_sign b then f32_default_nan else a)
      else if f32_is_inf b then b
      else
        let (pa, qa) = f32_val a; (pb, qb) = f32_val b;
            n = pa * int qb + pb * int qa
        in if n = 0 then f32_pack (f32_sign a \<and> f32_sign b) 0
           else f32_pack (n < 0) (f32_round (nat \<bar>n\<bar>) (qa * qb)))"

definition f32_sub :: "float \<Rightarrow> float \<Rightarrow> float" where
  "f32_sub a b = (if f32_is_nan a \<or> f32_is_nan b then f32_quiet a b else f32_add a (f32_neg b))"

definition f32_mul :: "float \<Rightarrow> float \<Rightarrow> float" where
  "f32_mul a b =
     (let s = (f32_sign a \<noteq> f32_sign b) in
      if f32_is_nan a \<or> f32_is_nan b then f32_quiet a b
      else if f32_is_inf a \<or> f32_is_inf b then
        (if f32_is_zero a \<or> f32_is_zero b then f32_default_nan else f32_pack s 0x7F800000)
      else
        let (pa, qa) = f32_mag a; (pb, qb) = f32_mag b
        in f32_pack s (f32_round (pa * pb) (qa * qb)))"

definition f32_div :: "float \<Rightarrow> float \<Rightarrow> float" where
  "f32_div a b =
     (let s = (f32_sign a \<noteq> f32_sign b) in
      if f32_is_nan a \<or> f32_is_nan b then f32_quiet a b
      else if f32_is_inf a then
        (if f32_is_inf b then f32_default_nan else f32_pack s 0x7F800000)
      else if f32_is_inf b then f32_pack s 0
      else if f32_is_zero b then
        (if f32_is_zero a then f32_default_nan else f32_pack s 0x7F800000)
      else
        let (pa, qa) = f32_mag a; (pb, qb) = f32_mag b
        in f32_pack s (f32_round (pa * qb) (qa * pb)))"

text \<open>The comparisons \<^verbatim>\<open>a > b\<close> and \<^verbatim>\<open>a <= b\<close>: false when an operand is a NaN.\<close>

definition f32_gt :: "float \<Rightarrow> float \<Rightarrow> bool" where
  "f32_gt a b =
     (\<not> f32_is_nan a \<and> \<not> f32_is_nan b \<and>
      (let (pa, qa) = f32_val a; (pb, qb) = f32_val b in pb * int qa < pa * int qb))"

definition f32_le :: "float \<Rightarrow> float \<Rightarrow> bool" where
  "f32_le a b =
     (\<not> f32_is_nan a \<and> \<not> f32_is_nan b \<and>
      (let (pa, qa) = f32_val a; (pb, qb) = f32_val b in pa * int qb \<le> pb * int qa))"

text \<open>
  The comparison \<^verbatim>\<open>a == b\<close>: false when an operand is a NaN, true for two zeros of either
  sign, and otherwise true exactly for equal patterns.
\<close>

definition f32_eq :: "float \<Rightarrow> float \<Rightarrow> bool" where
  "f32_eq a b =
     (\<not> f32_is_nan a \<and> \<not> f32_is_nan b \<and> (a = b \<or> (f32_is_zero a \<and> f32_is_zero b)))"

text \<open>The conversion \<^verbatim>\<open>(float)n\<close> of a \<^verbatim>\<open>uint32_t\<close>.\<close>

definition f32_of_u32 :: "u32 \<Rightarrow> float" where
  "f32_of_u32 n = f32_round (unat n) 1"

text \<open>The literals of the source.\<close>

definition f32_0_0 :: float where "f32_0_0 = 0x00000000"
definition f32_0_1 :: float where "f32_0_1 = 0x3DCCCCCD"
definition f32_0_5 :: float where "f32_0_5 = 0x3F000000"
definition f32_0_7 :: float where "f32_0_7 = 0x3F333333"
definition f32_1_0 :: float where "f32_1_0 = 0x3F800000"
definition f32_1_5 :: float where "f32_1_5 = 0x3FC00000"
definition f32_1000 :: float where "f32_1000 = 0x447A0000"

section \<open>VectorCodec: hash and vector generation\<close>

record HolographicVector =
  data :: "float list"
  hash_signature :: u32
  active_dimensions :: u16
  valid :: u8

text \<open>\<^verbatim>\<open>hash_data\<close>: FNV-1a over the \<open>size\<close> bytes of the input.\<close>

definition hash_data :: "u8 list \<Rightarrow> u32" where
  "hash_data input = fold (\<lambda>b hash. (hash XOR ucast b) * 16777619) input 2166136261"

definition lcg_next :: "u32 \<Rightarrow> u32" where
  "lcg_next seed = (seed * 1103515245 + 12345) AND 0x7fffffff"

text \<open>
  One iteration of the fill loop of \<^verbatim>\<open>create_holographic_vector\<close>. The operands of
  \<^verbatim>\<open>(seed % 2000) - 1000\<close> are unsigned, so the subtraction wraps.
\<close>

definition fill_step :: "nat \<Rightarrow> u32 \<times> HolographicVector \<Rightarrow> u32 \<times> HolographicVector" where
  "fill_step i sv =
     (let seed = lcg_next (fst sv); vector = snd sv in
      if seed mod 10 = 0 then
        (seed, vector\<lparr>data := (data vector)[i := f32_div (f32_of_u32 (seed mod 2000 - 1000)) f32_1000],
                       active_dimensions := active_dimensions vector + 1\<rparr>)
      else (seed, vector\<lparr>data := (data vector)[i := f32_0_0]\<rparr>))"

definition create_holographic_vector :: "u8 list \<Rightarrow> HolographicVector" where
  "create_holographic_vector input =
     (let vector = \<lparr>data = replicate HOLOGRAPHIC_DIMENSIONS 0, hash_signature = hash_data input,
                    active_dimensions = 0, valid = 1\<rparr>
      in snd (fold fill_step [0..<HOLOGRAPHIC_DIMENSIONS] (hash_signature vector, vector)))"

text \<open>A string literal passed with \<^verbatim>\<open>strlen(s) + 1\<close>: its bytes and the terminating NUL.\<close>

definition cstr :: "string \<Rightarrow> u8 list" where
  "cstr s = map (\<lambda>c. of_nat (of_char c)) s @ [0]"

section \<open>PatternStore: the holographic memory\<close>

record MemoryEntry =
  input_pattern :: HolographicVector
  output_pattern :: HolographicVector
  timestamp :: u32
  entry_valid :: u8

text \<open>
  \<^verbatim>\<open>holo_system\<close>. The pool has \<^verbatim>\<open>MAX_MEMORY_ENTRIES\<close> slots; \<open>memory_count\<close> is kept as a
  natural number, it never exceeds the capacity.
\<close>

record HolographicSystem =
  memory_pool :: "MemoryEntry list"
  memory_count :: nat
  global_timestamp :: u32

text \<open>
  Values of type \<^verbatim>\<open>HolographicVector*\<close>: null, the address of the output pattern of a pool
  slot, or the address of the local \<^verbatim>\<open>simple_genome_rule\<close> of the function that took it.
\<close>

datatype vector_ptr = NULL | Pool_output nat | Local_simple_genome_rule

definition evict_oldest :: "MemoryEntry list \<Rightarrow> MemoryEntry list" where
  "evict_oldest pool = fold (\<lambda>i p. p[i := p ! (i + 1)]) [0..<MAX_MEMORY_ENTRIES - 1] pool"

definition encode_holographic_memory ::
    "HolographicVector \<Rightarrow> HolographicVector \<Rightarrow> HolographicSystem \<Rightarrow> HolographicSystem" where
  "encode_holographic_memory input output hs =
     (let hs1 = (if MAX_MEMORY_ENTRIES \<le> memory_count hs
                 then hs\<lparr>memory_pool := evict_oldest (memory_pool hs),
                         memory_count := MAX_MEMORY_ENTRIES - 1\<rparr>
                 else hs);
          entry = \<lparr>input_pattern = input, output_pattern = output,
                   timestamp = global_timestamp hs1, entry_valid = 1\<rparr>
      in hs1\<lparr>memory_pool := (memory_pool hs1)[memory_count hs1 := entry],
              global_timestamp := global_timestamp hs1 + 1,
              memory_count := memory_count hs1 + 1\<rparr>)"

text \<open>The backward scan of \<^verbatim>\<open>retrieve_holographic_memory\<close>, from index \<open>n - 1\<close> down to 0.\<close>

fun retrieve_scan :: "MemoryEntry list \<Rightarrow> u32 \<Rightarrow> nat \<Rightarrow> vector_ptr" where
  "retrieve_scan pool hash 0 = NULL"
| "retrieve_scan pool hash (Suc i) =
     (if entry_valid (pool ! i) \<noteq> 0 \<and> hash_signature (input_pattern (pool ! i)) = hash
      then Pool_output i
      else retrieve_scan pool hash i)"

definition retrieve_holographic_memory :: "u32 \<Rightarrow> HolographicSystem \<Rightarrow> vector_ptr" where
  "retrieve_holographic_memory hash hs = retrieve_scan (memory_pool hs) hash (memory_count hs)"

definition initialize_holographic_memory :: "HolographicSystem \<Rightarrow> HolographicSystem" where
  "initialize_holographic_memory hs =
     hs\<lparr>memory_count := 0, global_timestamp := 0,
        memory_pool := fold (\<lambda>i p. p[i := (p ! i)\<lparr>entry_valid := 0\<rparr>]) [0..<MAX_MEMORY_ENTRIES]
                         (memory_pool hs)\<rparr>"

section \<open>EntityModel: the arena\<close>

record Entity =
  entity_id :: u32
  state :: HolographicVector
  genome :: vector_ptr
  age :: u32
  interaction_count :: u32
  is_active :: u8
  specialization_scores :: "float list"
  resource_allocation :: float
  confidence :: float
  domain_name :: "char list"
  task_vector :: HolographicVector
  path_id :: u32
  task_alignment :: float
  fitness_score :: u32
  spawn_count :: u32
  marked_for_gc :: u8
  is_mutant :: u8

text \<open>
  The globals: \<^verbatim>\<open>holo_system\<close>, \<^verbatim>\<open>entity_pool\<close> (\<^verbatim>\<open>MAX_ENTITIES\<close> slots) and
  \<^verbatim>\<open>active_entity_count\<close>.
\<close>

record kernel =
  holo_system :: HolographicSystem
  entity_pool :: "Entity list"
  active_entity_count :: nat

text \<open>
  \<^verbatim>\<open>strncpy(dest, src, n)\<close> on character arrays, and the two statements that set a
  32-byte name: \<^verbatim>\<open>strncpy(dest, src, 31); dest[31] = '\0';\<close>
\<close>

definition strncpy :: "char list \<Rightarrow> char list \<Rightarrow> nat \<Rightarrow> char list" where
  "strncpy dest src n =
     (let s = takeWhile (\<lambda>c. c \<noteq> CHR 0x00) (take n src)
      in s @ replicate (n - length s) (CHR 0x00) @ drop n dest)"

definition set_name :: "char list \<Rightarrow> char list \<Rightarrow> char list" where
  "set_name dest src = (strncpy dest src 31)[31 := CHR 0x00]"

definition literal :: "string \<Rightarrow> char list" where
  "literal s = s @ [CHR 0x00]"

text \<open>
  \<^verbatim>\<open>spawn_entity\<close>: the result is the index of the new slot (the returned pointer is
  \<^verbatim>\<open>&entity_pool[index]\<close>), or \<open>None\<close> for the null pointer of the pool-full branch.
\<close>

definition spawn_entity :: "kernel \<Rightarrow> nat option \<times> kernel" where
  "spawn_entity k =
     (if MAX_ENTITIES \<le> active_entity_count k then (None, k)
      else
        let idx = active_entity_count k;
            e0 = (entity_pool k ! idx)
                   \<lparr>entity_id := of_nat (active_entity_count k), age := 0, interaction_count := 0,
                    is_active := 1, fitness_score := 0, spawn_count := 0, marked_for_gc := 0,
                    is_mutant := 0\<rparr>;
            simple_genome_rule = create_holographic_vector (cstr ''GENOME_SIMPLE_RULE_1'');
            found = retrieve_holographic_memory (hash_signature simple_genome_rule) (holo_system k);
            hs = (if found = NULL
                  then encode_holographic_memory simple_genome_rule simple_genome_rule (holo_system k)
                  else holo_system k);
            genome_ptr = (if found = NULL then Local_simple_genome_rule else found);
            e1 = e0\<lparr>state := create_holographic_vector (cstr ''TRAIT_DORMANT''),
                    genome := genome_ptr,
                    specialization_scores :=
                      fold (\<lambda>i sc. sc[i := f32_0_1]) [0..<MAX_ENTITY_DOMAINS] (specialization_scores e0),
                    resource_allocation := f32_1_0,
                    confidence := f32_0_5,
                    task_alignment := f32_0_0,
                    domain_name := set_name (domain_name e0) (literal ''emergent'')\<rparr>
        in (Some idx, k\<lparr>holo_system := hs,
                         entity_pool := (entity_pool k)[idx := e1],
                         active_entity_count := active_entity_count k + 1\<rparr>))"

text \<open>One iteration of the loop of \<^verbatim>\<open>initialize_emergent_entities\<close>, and the function.\<close>

definition initialize_entity :: "HolographicVector \<Rightarrow> vector_ptr \<Rightarrow> kernel \<Rightarrow> kernel" where
  "initialize_entity trait_dormant genome_ptr k =
     (if MAX_ENTITIES \<le> active_entity_count k then k
      else
        let idx = active_entity_count k;
            e0 = entity_pool k ! idx;
            e1 = e0\<lparr>entity_id := of_nat (active_entity_count k), age := 0, interaction_count := 0,
                    is_active := 1, state := trait_dormant, genome := genome_ptr,
                    specialization_scores :=
                      fold (\<lambda>j sc. sc[j := f32_0_1]) [0..<MAX_ENTITY_DOMAINS] (specialization_scores e0),
                    resource_allocation := f32_1_0, confidence := f32_0_5,
                    fitness_score := 0, spawn_count := 0, marked_for_gc := 0, is_mutant := 0,
                    task_alignment := f32_0_0,
                    domain_name := set_name (domain_name e0) (literal ''generic'')\<rparr>
        in k\<lparr>entity_pool := (entity_pool k)[idx := e1],
              active_entity_count := active_entity_count k + 1\<rparr>)"

definition initialize_emergent_entities :: "kernel \<Rightarrow> kernel" where
  "initialize_emergent_entities k =
     (let simple_genome_rule = create_holographic_vector (cstr ''GENOME_SIMPLE_RULE_1'');
          found = retrieve_holographic_memory (hash_signature simple_genome_rule) (holo_system k);
          hs = (if found = NULL
                then encode_holographic_memory simple_genome_rule simple_genome_rule (holo_system k)
                else holo_system k);
          genome_ptr = (if found = NULL then Local_simple_genome_rule else found);
          trait_dormant = create_holographic_vector (cstr ''TRAIT_DORMANT'')
      in fold (\<lambda>i. initialize_entity trait_dormant genome_ptr) [0..<INITIAL_ENTITIES]
           (k\<lparr>holo_system := hs\<rparr>))"

section \<open>EvolutionEngine: the update cycle\<close>

text \<open>The local next-state arrays of \<^verbatim>\<open>update_entities\<close>, each of \<^verbatim>\<open>MAX_ENTITIES\<close> cells.\<close>

record next_buffers =
  next_active :: "u8 list"
  next_state :: "HolographicVector list"
  next_domain :: "char list list"
  next_task_vector :: "HolographicVector list"
  next_path_id :: "u32 list"
  next_task_alignment :: "float list"

text \<open>
  The \<^verbatim>\<open>sqrtf\<close> of the source: the bit-level reciprocal square root estimate, one
  Newton step, and a division. \<^verbatim>\<open>i >> 1\<close> shifts a signed \<^verbatim>\<open>int\<close>.
\<close>

definition sqrtf :: "float \<Rightarrow> float" where
  "sqrtf x =
     (if f32_le x f32_0_0 then f32_0_0
      else
        let x_half = f32_mul f32_0_5 x;
            i = 0x5f3759df - signed_drop_bit 1 x;
            y = f32_mul i (f32_sub f32_1_5 (f32_mul (f32_mul x_half i) i))
        in f32_div f32_1_0 y)"

text \<open>The cosine similarity of the task-alignment block: the three sums, then the quotient.\<close>

definition alignment_sums :: "float list \<Rightarrow> float list \<Rightarrow> float \<times> float \<times> float" where
  "alignment_sums s t =
     fold (\<lambda>d (dot, mag1, mag2).
             (f32_add dot (f32_mul (s ! d) (t ! d)),
              f32_add mag1 (f32_mul (s ! d) (s ! d)),
              f32_add mag2 (f32_mul (t ! d) (t ! d))))
          [0..<HOLOGRAPHIC_DIMENSIONS] (f32_0_0, f32_0_0, f32_0_0)"

definition cosine_alignment :: "float list \<Rightarrow> float list \<Rightarrow> float" where
  "cosine_alignment s t =
     (let (dot, mag1, mag2) = alignment_sums s t;
          m1 = (if f32_gt mag1 f32_0_0 then sqrtf mag1 else f32_1_0);
          m2 = (if f32_gt mag2 f32_0_0 then sqrtf mag2 else f32_1_0)
      in if f32_gt (f32_mul m1 m2) f32_0_0 then f32_div dot (f32_mul m1 m2) else f32_0_0)"

text \<open>Lines 370--376: the entity's current values are copied into cell \<open>i\<close> of the buffers.\<close>

definition buffer_entity :: "nat \<Rightarrow> Entity \<Rightarrow> next_buffers \<Rightarrow> next_buffers" where
  "buffer_entity i entity nb =
     nb\<lparr>next_active := (next_active nb)[i := is_active entity],
        next_state := (next_state nb)[i := state entity],
        next_domain := (next_domain nb)[i := set_name (next_domain nb ! i) (domain_name entity)],
        next_task_vector := (next_task_vector nb)[i := task_vector entity],
        next_path_id := (next_path_id nb)[i := path_id entity],
        next_task_alignment := (next_task_alignment nb)[i := task_alignment entity]\<rparr>"

text \<open>
  Lines 380--384: the ring neighbours of \<open>i\<close> are taken from the pool and from
  \<^verbatim>\<open>active_entity_count\<close> as they are when entity \<open>i\<close> is visited.
\<close>

definition prev_idx :: "kernel \<Rightarrow> nat \<Rightarrow> nat" where
  "prev_idx k i = (if i = 0 then active_entity_count k - 1 else i - 1)"

definition next_idx :: "kernel \<Rightarrow> nat \<Rightarrow> nat" where
  "next_idx k i = (if i = active_entity_count k - 1 then 0 else i + 1)"

definition neighbor_active :: "kernel \<Rightarrow> nat \<Rightarrow> nat" where
  "neighbor_active k i =
     (if is_active (entity_pool k ! prev_idx k i) \<noteq> 0 then 1 else 0) +
     (if is_active (entity_pool k ! next_idx k i) \<noteq> 0 then 1 else 0)"

text \<open>
  The body of \<^verbatim>\<open>if (child) { ... }\<close> in rule 3: \<open>c\<close> is the child's slot, \<open>i\<close> the
  parent's. The statements are applied in the order of the source.
\<close>

definition mutate_child :: "nat \<Rightarrow> nat \<Rightarrow> kernel \<Rightarrow> kernel" where
  "mutate_child i c k =
     (let entity = entity_pool k ! i;
          child = (entity_pool k ! c)\<lparr>genome := genome entity, is_mutant := 1, state := state entity\<rparr>;
          rand_dim = unat (global_timestamp (holo_system k)) mod HOLOGRAPHIC_DIMENSIONS;
          child = child\<lparr>state := (state child)
                    \<lparr>data := (data (state child))[rand_dim := f32_neg (data (state child) ! rand_dim)]\<rparr>\<rparr>;
          child = child\<lparr>task_vector := task_vector entity, path_id := path_id entity,
                        task_alignment := task_alignment entity\<rparr>;
          pool = (entity_pool k)[c := child];
          pool = pool[i := (pool ! i)\<lparr>spawn_count := spawn_count (pool ! i) + 1,
                                      fitness_score := fitness_score (pool ! i) + 10\<rparr>]
      in k\<lparr>entity_pool := pool\<rparr>)"

text \<open>Lines 386--435: the three cellular-automaton rules, first match wins.\<close>

definition apply_rules :: "nat \<Rightarrow> next_buffers \<times> kernel \<Rightarrow> next_buffers \<times> kernel" where
  "apply_rules i nbk =
     (let nb = fst nbk; k = snd nbk;
          entity = entity_pool k ! i;
          na = neighbor_active k i
      in if is_active entity = 0 \<and> 0 < na then
           (nb\<lparr>next_active := (next_active nb)[i := 1],
               next_state := (next_state nb)[i := create_holographic_vector (cstr ''TRAIT_ACTIVE'')],
               next_domain := (next_domain nb)[i := set_name (next_domain nb ! i) (literal ''reactor'')]\<rparr>,
            k\<lparr>entity_pool := (entity_pool k)
                  [i := entity\<lparr>interaction_count := interaction_count entity + 1\<rparr>]\<rparr>)
         else if is_active entity \<noteq> 0 \<and> na = 0 then
           (nb\<lparr>next_active := (next_active nb)[i := 0],
               next_state := (next_state nb)[i := create_holographic_vector (cstr ''TRAIT_DORMANT'')],
               next_domain := (next_domain nb)[i := set_name (next_domain nb ! i) (literal ''sleeper'')]\<rparr>,
            k\<lparr>entity_pool := (entity_pool k)
                  [i := entity\<lparr>interaction_count := interaction_count entity + 1\<rparr>]\<rparr>)
         else if is_active entity \<noteq> 0 \<and> 2 \<le> na \<and> active_entity_count k < MAX_ENTITIES - 1 then
           (case spawn_entity k of
              (None, k') \<Rightarrow> (nb, k')
            | (Some c, k') \<Rightarrow> (nb, mutate_child i c k'))
         else (nb, k))"

text \<open>Lines 437--456: task alignment, and the fitness bonus above 0.7.\<close>

definition align_task :: "nat \<Rightarrow> next_buffers \<times> kernel \<Rightarrow> next_buffers \<times> kernel" where
  "align_task i nbk =
     (let nb = fst nbk; k = snd nbk;
          entity = entity_pool k ! i
      in if valid (task_vector entity) \<noteq> 0 then
           let a = cosine_alignment (data (state entity)) (data (task_vector entity));
               nb' = nb\<lparr>next_task_alignment := (next_task_alignment nb)[i := a]\<rparr>
           in if f32_gt a f32_0_7
              then (nb', k\<lparr>entity_pool := (entity_pool k)
                             [i := entity\<lparr>fitness_score := fitness_score entity + 5\<rparr>]\<rparr>)
              else (nb', k)
         else (nb, k))"

text \<open>Lines 458--464: the mark for garbage collection.\<close>

definition gc_mark :: "nat \<Rightarrow> kernel \<Rightarrow> kernel" where
  "gc_mark i k =
     (let entity = entity_pool k ! i
      in if 1000 < age entity \<and> fitness_score entity < 50
         then k\<lparr>entity_pool := (entity_pool k)[i := entity\<lparr>marked_for_gc := 1\<rparr>]\<rparr>
         else k)"

text \<open>The body of the first loop, for index \<open>i\<close>.\<close>

definition visit_entity :: "nat \<Rightarrow> next_buffers \<times> kernel \<Rightarrow> next_buffers \<times> kernel" where
  "visit_entity i nbk =
     (let nb = fst nbk; k = snd nbk;
          entity = entity_pool k ! i;
          nb1 = buffer_entity i entity nb;
          k1 = k\<lparr>entity_pool := (entity_pool k)[i := entity\<lparr>age := age entity + 1\<rparr>]\<rparr>;
          nbk2 = apply_rules i (nb1, k1);
          nbk3 = align_task i nbk2
      in (fst nbk3, gc_mark i (snd nbk3)))"

lemma spawn_entity_count:
  "active_entity_count (snd (spawn_entity k)) =
     (if MAX_ENTITIES \<le> active_entity_count k then active_entity_count k
      else active_entity_count k + 1)"
  by (simp add: spawn_entity_def Let_def)

lemma mutate_child_count [simp]: "active_entity_count (mutate_child i c k) = active_entity_count k"
  by (simp add: mutate_child_def Let_def)

lemma apply_rules_count:
  "active_entity_count (snd (apply_rules i nbk)) =
     (if is_active (entity_pool (snd nbk) ! i) \<noteq> 0 \<and> 2 \<le> neighbor_active (snd nbk) i
         \<and> active_entity_count (snd nbk) < MAX_ENTITIES - 1
      then active_entity_count (snd nbk) + 1 else active_entity_count (snd nbk))"
  using spawn_entity_count [of "snd nbk"]
  by (auto simp: apply_rules_def Let_def split: prod.splits option.splits)

lemma align_task_count [simp]:
  "active_entity_count (snd (align_task i nbk)) = active_entity_count (snd nbk)"
  by (simp add: align_task_def Let_def)

lemma gc_mark_count [simp]: "active_entity_count (gc_mark i k) = active_entity_count k"
  by (simp add: gc_mark_def Let_def)

lemma visit_entity_count_le:
  "active_entity_count (snd (visit_entity i nbk))
     \<le> max (MAX_ENTITIES - 1) (active_entity_count (snd nbk))"
  by (simp add: visit_entity_def Let_def apply_rules_count)

text \<open>
  The first loop, \<^verbatim>\<open>for (int i = 0; i < active_entity_count; i++)\<close>: the bound is the
  global, read again before every iteration.
\<close>

function visit_loop :: "nat \<Rightarrow> next_buffers \<times> kernel \<Rightarrow> next_buffers \<times> kernel" where
  "visit_loop i nbk =
     (if i < active_entity_count (snd nbk) then visit_loop (Suc i) (visit_entity i nbk) else nbk)"
  by pat_completeness auto
termination
proof (relation "measure (\<lambda>(i, nbk). max (MAX_ENTITIES - 1) (active_entity_count (snd nbk)) - i)")
  show "wf (measure (\<lambda>(i, nbk). max (MAX_ENTITIES - 1) (active_entity_count (snd nbk)) - i))"
    by simp
next
  fix i :: nat and nbk :: "next_buffers \<times> kernel"
  assume "i < active_entity_count (snd nbk)"
  with visit_entity_count_le [of i nbk]
  show "((Suc i, visit_entity i nbk), (i, nbk))
          \<in> measure (\<lambda>(i, nbk). max (MAX_ENTITIES - 1) (active_entity_count (snd nbk)) - i)"
    by simp
qed

declare visit_loop.simps [simp del]

text \<open>The second loop (lines 468--476): the buffered values are written back.\<close>

definition apply_entity :: "next_buffers \<Rightarrow> nat \<Rightarrow> Entity list \<Rightarrow> Entity list" where
  "apply_entity nb i pool =
     pool[i := (pool ! i)\<lparr>is_active := next_active nb ! i,
                          state := next_state nb ! i,
                          domain_name := set_name (domain_name (pool ! i)) (next_domain nb ! i),
                          task_vector := next_task_vector nb ! i,
                          path_id := next_path_id nb ! i,
                          task_alignment := next_task_alignment nb ! i\<rparr>]"

definition apply_changes :: "next_buffers \<Rightarrow> kernel \<Rightarrow> kernel" where
  "apply_changes nb k =
     k\<lparr>entity_pool := fold (apply_entity nb) [0..<active_entity_count k] (entity_pool k)\<rparr>"

text \<open>
  The third loop (lines 479--492): the compacting pass, on the pair of \<^verbatim>\<open>write_index\<close>
  and the pool.
\<close>

definition collect_step :: "nat \<Rightarrow> nat \<times> Entity list \<Rightarrow> nat \<times> Entity list" where
  "collect_step i wp =
     (let write_index = fst wp; pool = snd wp
      in if marked_for_gc (pool ! i) = 0
         then (write_index + 1, if write_index \<noteq> i then pool[write_index := pool ! i] else pool)
         else (write_index, pool))"

definition collect_garbage :: "kernel \<Rightarrow> kernel" where
  "collect_garbage k =
     (let wp = fold collect_step [0..<active_entity_count k] (0, entity_pool k)
      in k\<lparr>entity_pool := snd wp, active_entity_count := fst wp\<rparr>)"

text \<open>
  \<^verbatim>\<open>update_entities\<close>. Only \<^verbatim>\<open>next_active\<close> has an initialiser; \<open>stack\<close> stands for the
  indeterminate contents of the other local arrays. The three hash locals are computed
  and never used.
\<close>

definition evaluate_entities :: "next_buffers \<Rightarrow> kernel \<Rightarrow> next_buffers \<times> kernel" where
  "evaluate_entities stack k =
     visit_loop 0 (stack\<lparr>next_active := replicate MAX_ENTITIES 0\<rparr>, k)"

definition update_entities :: "next_buffers \<Rightarrow> kernel \<Rightarrow> kernel" where
  "update_entities stack k =
     (let nbk = evaluate_entities stack k
      in collect_garbage (apply_changes (fst nbk) (snd nbk)))"


section \<open>Notions used in the statements\<close>

subsection \<open>The vector generator\<close>

text \<open>
  The seed after \<open>n\<close> steps of the linear congruential sequence started at \<open>h\<close>;
  dimension \<open>i\<close> of the vector generated from \<open>input\<close> is filled from step \<open>i + 1\<close> of the
  sequence started at the hash of \<open>input\<close>, and it is selected when that value is divisible
  by 10.
\<close>

fun lcg_seq :: "u32 \<Rightarrow> nat \<Rightarrow> u32" where
  "lcg_seq h 0 = h"
| "lcg_seq h (Suc n) = lcg_next (lcg_seq h n)"

definition dimension_seed :: "u8 list \<Rightarrow> nat \<Rightarrow> u32" where
  "dimension_seed input i = lcg_seq (hash_data input) (Suc i)"

definition selected :: "u8 list \<Rightarrow> nat \<Rightarrow> bool" where
  "selected input i = (dimension_seed input i mod 10 = 0)"

text \<open>The value that the fill loop stores for a sequence value.\<close>

definition component :: "u32 \<Rightarrow> float" where
  "component seed =
     (if seed mod 10 = 0 then f32_div (f32_of_u32 (seed mod 2000 - 1000)) f32_1000 else f32_0_0)"

definition nonzero_components :: "HolographicVector \<Rightarrow> nat" where
  "nonzero_components v = length (filter f32_nonzero (data v))"

subsection \<open>The pattern store\<close>

definition store_ok :: "HolographicSystem \<Rightarrow> bool" where
  "store_ok hs = (length (memory_pool hs) = MAX_MEMORY_ENTRIES \<and> memory_count hs \<le> MAX_MEMORY_ENTRIES)"

text \<open>A sequence of calls of \<open>encode_holographic_memory\<close>, one per pair of input and output.\<close>

definition insert_all ::
    "(HolographicVector \<times> HolographicVector) list \<Rightarrow> HolographicSystem \<Rightarrow> HolographicSystem" where
  "insert_all xs hs = fold (\<lambda>io. encode_holographic_memory (fst io) (snd io)) xs hs"

text \<open>The records that the store holds, oldest first, without their timestamps.\<close>

definition entry_record :: "MemoryEntry \<Rightarrow> HolographicVector \<times> HolographicVector \<times> u8" where
  "entry_record e = (input_pattern e, output_pattern e, entry_valid e)"

definition records :: "HolographicSystem \<Rightarrow> (HolographicVector \<times> HolographicVector \<times> u8) list" where
  "records hs = map entry_record (take (memory_count hs) (memory_pool hs))"

definition lastn :: "nat \<Rightarrow> 'a list \<Rightarrow> 'a list" where
  "lastn n xs = drop (length xs - n) xs"

subsection \<open>The arena\<close>

text \<open>
  The arena is well formed when the pool has its \<^verbatim>\<open>MAX_ENTITIES\<close> slots and the count does
  not exceed them; the live entities are those of the prefix below the count.
\<close>

definition arena_ok :: "kernel \<Rightarrow> bool" where
  "arena_ok k = (length (entity_pool k) = MAX_ENTITIES \<and> active_entity_count k \<le> MAX_ENTITIES)"

definition live :: "kernel \<Rightarrow> Entity list" where
  "live k = take (active_entity_count k) (entity_pool k)"

definition unmarked :: "Entity \<Rightarrow> bool" where
  "unmarked e = (marked_for_gc e = 0)"

text \<open>The test of the marking statement.\<close>

definition gc_due :: "Entity \<Rightarrow> bool" where
  "gc_due e = (1000 < age e \<and> fitness_score e < 50)"

text \<open>The conditions of the three rules, as the \<^verbatim>\<open>if\<close> chain of the first loop reads them.\<close>

definition activate_rule :: "kernel \<Rightarrow> nat \<Rightarrow> bool" where
  "activate_rule k i = (is_active (entity_pool k ! i) = 0 \<and> 0 < neighbor_active k i)"

definition sleep_rule :: "kernel \<Rightarrow> nat \<Rightarrow> bool" where
  "sleep_rule k i = (is_active (entity_pool k ! i) \<noteq> 0 \<and> neighbor_active k i = 0)"

definition spawns :: "kernel \<Rightarrow> nat \<Rightarrow> bool" where
  "spawns k i = (is_active (entity_pool k ! i) \<noteq> 0 \<and> 2 \<le> neighbor_active k i
                 \<and> active_entity_count k < MAX_ENTITIES - 1)"

text \<open>
  The tick counter that the mutation statement of the spawn rule reads when the rule fires in
  \<open>k\<close>: \<open>spawn_entity\<close> runs first, and when it does not find the genome record it stores one,
  which advances the counter.
\<close>

definition mutation_tick :: "kernel \<Rightarrow> u32" where
  "mutation_tick k =
     (if retrieve_holographic_memory (hash_data (cstr ''GENOME_SIMPLE_RULE_1'')) (holo_system k) = NULL
      then global_timestamp (holo_system k) + 1 else global_timestamp (holo_system k))"

text \<open>The first statement of a visit that writes the pool: \<^verbatim>\<open>entity->age++\<close>.\<close>

definition aged :: "nat \<Rightarrow> kernel \<Rightarrow> kernel" where
  "aged i k = k\<lparr>entity_pool := (entity_pool k)[i := (entity_pool k ! i)\<lparr>age := age (entity_pool k ! i) + 1\<rparr>]\<rparr>"

text \<open>
  An entity without the five fields that the first loop writes for the entity it visits,
  and the assignment of the write-back loop to the entity of index \<open>i\<close>.
\<close>

definition visit_frame :: "Entity \<Rightarrow> Entity" where
  "visit_frame e = e\<lparr>age := 0, interaction_count := 0, spawn_count := 0, fitness_score := 0,
                      marked_for_gc := 0\<rparr>"

definition written :: "next_buffers \<Rightarrow> nat \<Rightarrow> Entity \<Rightarrow> Entity" where
  "written nb i e = e\<lparr>is_active := next_active nb ! i,
                       state := next_state nb ! i,
                       domain_name := set_name (domain_name e) (next_domain nb ! i),
                       task_vector := next_task_vector nb ! i,
                       path_id := next_path_id nb ! i,
                       task_alignment := next_task_alignment nb ! i\<rparr>"

text \<open>The arena after the first two loops of \<open>update_entities\<close>, before the compacting pass.\<close>

definition evaluated :: "next_buffers \<Rightarrow> kernel \<Rightarrow> kernel" where
  "evaluated stack k =
     apply_changes (fst (evaluate_entities stack k)) (snd (evaluate_entities stack k))"

text \<open>The index to which the compacting pass moves the unmarked entity of index \<open>i\<close>.\<close>

definition new_index :: "kernel \<Rightarrow> nat \<Rightarrow> nat" where
  "new_index m i = length (filter unmarked (take i (entity_pool m)))"

text \<open>
  The fields that a cycle leaves alone in an entity that survives it: id, genome pointer,
  confidence, resource allocation, specialization scores and the mutant flag.
\<close>

definition frame :: "Entity \<Rightarrow> u32 \<times> vector_ptr \<times> float \<times> float \<times> float list \<times> u8" where
  "frame e = (entity_id e, genome e, confidence e, resource_allocation e, specialization_scores e,
              is_mutant e)"

definition ids_are_indices :: "kernel \<Rightarrow> bool" where
  "ids_are_indices k = (map entity_id (live k) = map of_nat [0..<active_entity_count k])"

text \<open>The operations on the arena, and a sequence of them.\<close>

datatype arena_op = Spawn | Update next_buffers | Collect

fun run_op :: "arena_op \<Rightarrow> kernel \<Rightarrow> kernel" where
  "run_op Spawn k = snd (spawn_entity k)"
| "run_op (Update stack) k = update_entities stack k"
| "run_op Collect k = collect_garbage k"

subsection \<open>Sample states\<close>

text \<open>
  The globals are zero-initialised: \<open>zero_store\<close> and \<open>zero_entity\<close> are the store and an
  entity slot at boot, \<open>zero_stack\<close> stands for local arrays that happen to hold zeros. A
  sample entity has an id, an active flag, an age and a fitness; its task vector is not valid.
  \<open>arena_of es\<close> is the arena whose live entities are \<open>es\<close>.
\<close>

definition zero_vector :: HolographicVector where
  "zero_vector = \<lparr>data = replicate HOLOGRAPHIC_DIMENSIONS 0, hash_signature = 0,
                   active_dimensions = 0, valid = 0\<rparr>"

definition zero_entity :: Entity where
  "zero_entity = \<lparr>entity_id = 0, state = zero_vector, genome = NULL, age = 0, interaction_count = 0,
     is_active = 0, specialization_scores = replicate MAX_ENTITY_DOMAINS 0, resource_allocation = 0,
     confidence = 0, domain_name = replicate 32 (CHR 0x00), task_vector = zero_vector, path_id = 0,
     task_alignment = 0, fitness_score = 0, spawn_count = 0, marked_for_gc = 0, is_mutant = 0\<rparr>"

definition zero_store :: HolographicSystem where
  "zero_store = \<lparr>memory_pool = replicate MAX_MEMORY_ENTRIES
       \<lparr>input_pattern = zero_vector, output_pattern = zero_vector, timestamp = 0, entry_valid = 0\<rparr>,
     memory_count = 0, global_timestamp = 0\<rparr>"

definition zero_stack :: next_buffers where
  "zero_stack = \<lparr>next_active = replicate MAX_ENTITIES 0,
     next_state = replicate MAX_ENTITIES zero_vector,
     next_domain = replicate MAX_ENTITIES (replicate 32 (CHR 0x00)),
     next_task_vector = replicate MAX_ENTITIES zero_vector,
     next_path_id = replicate MAX_ENTITIES 0,
     next_task_alignment = replicate MAX_ENTITIES 0\<rparr>"

definition sample_entity :: "nat \<Rightarrow> u8 \<Rightarrow> u32 \<Rightarrow> u32 \<Rightarrow> Entity" where
  "sample_entity n a g f = zero_entity\<lparr>entity_id := of_nat n, is_active := a, age := g, fitness_score := f\<rparr>"

definition arena_of :: "Entity list \<Rightarrow> kernel" where
  "arena_of es = \<lparr>holo_system = zero_store,
                  entity_pool = es @ replicate (MAX_ENTITIES - length es) zero_entity,
                  active_entity_count = length es\<rparr>"

text \<open>An active entity whose state has the value 1.0 in every dimension.\<close>

definition unit_entity :: "nat \<Rightarrow> Entity" where
  "unit_entity n = (sample_entity n 1 0 0)
     \<lparr>state := zero_vector\<lparr>data := replicate HOLOGRAPHIC_DIMENSIONS f32_1_0\<rparr>\<rparr>"

text \<open>Six live entities in a ring, of which 1, 2, 3 and 5 are active.\<close>

definition ring_of_six :: kernel where
  "ring_of_six = arena_of [sample_entity 0 0 0 0, sample_entity 1 1 0 0, sample_entity 2 1 0 0,
                           sample_entity 3 1 0 0, sample_entity 4 0 0 0, sample_entity 5 1 0 0]"

text \<open>A vector whose signature is \<open>n\<close>.\<close>

definition numbered_vector :: "nat \<Rightarrow> HolographicVector" where
  "numbered_vector n = \<lparr>data = replicate HOLOGRAPHIC_DIMENSIONS 0, hash_signature = of_nat n,
                         active_dimensions = 0, valid = 1\<rparr>"


section \<open>The vector generator\<close>

lemma fill_fold:
  "n \<le> length (data v) \<Longrightarrow>
   fold fill_step [0..<n] (h, v) =
     (lcg_seq h n,
      v\<lparr>data := map (\<lambda>i. component (lcg_seq h (Suc i))) [0..<n] @ drop n (data v),
        active_dimensions := active_dimensions v
           + of_nat (length (filter (\<lambda>i. lcg_seq h (Suc i) mod 10 = 0) [0..<n]))\<rparr>)"
proof (induction n)
  case 0
  then show ?case by simp
next
  case (Suc n)
  then have n: "n < length (data v)" by simp
  have upd: "(map f [0..<n] @ drop n (data v))[n := x] = map f [0..<n] @ x # drop (Suc n) (data v)"
    for f :: "nat \<Rightarrow> float" and x
    using n by (simp add: list_update_append Cons_nth_drop_Suc [symmetric] )
  from Suc n show ?case
    by (simp add: fill_step_def Let_def component_def upd)
qed

lemma create_data:
  "data (create_holographic_vector input) =
     map (\<lambda>i. component (dimension_seed input i)) [0..<HOLOGRAPHIC_DIMENSIONS]"
  by (simp add: create_holographic_vector_def Let_def fill_fold dimension_seed_def)

lemma create_active:
  "active_dimensions (create_holographic_vector input) =
     of_nat (length (filter (selected input) [0..<HOLOGRAPHIC_DIMENSIONS]))"
  by (simp add: create_holographic_vector_def Let_def fill_fold dimension_seed_def selected_def [abs_def])

lemma create_signature:
  "hash_signature (create_holographic_vector input) = hash_data input"
  by (simp add: create_holographic_vector_def Let_def fill_fold)

lemma create_valid: "valid (create_holographic_vector input) = 1"
  by (simp add: create_holographic_vector_def Let_def fill_fold)

lemma unat_create_active:
  "unat (active_dimensions (create_holographic_vector input)) =
     length (filter (selected input) [0..<HOLOGRAPHIC_DIMENSIONS])"
proof -
  have "length (filter (selected input) [0..<HOLOGRAPHIC_DIMENSIONS]) \<le> 512"
    using length_filter_le [of "selected input" "[0..<HOLOGRAPHIC_DIMENSIONS]"] by simp
  then show ?thesis
    by (simp add: create_active unat_of_nat)
qed

lemma zero_component: "f32_div (f32_of_u32 0) f32_1000 = 0"
  by (simp add: f32_div_def f32_of_u32_def f32_round_def f32_1000_def f32_is_nan_def
      f32_is_inf_def f32_is_zero_def f32_exp_def f32_man_def f32_sign_def f32_pack_def f32_mag_def)

lemma component_nonzero_D:
  "f32_nonzero (component seed) \<Longrightarrow> seed mod 10 = 0 \<and> seed mod 2000 \<noteq> 1000"
  by (auto simp: component_def zero_component f32_nonzero_def f32_is_zero_def f32_0_0_def
        split: if_splits)

lemma nonzero_components_create:
  "nonzero_components (create_holographic_vector input) =
     length (filter (\<lambda>i. f32_nonzero (component (dimension_seed input i))) [0..<HOLOGRAPHIC_DIMENSIONS])"
  by (simp add: nonzero_components_def create_data filter_map comp_def)

lemma filter_length_mono:
  "(\<And>x. x \<in> set xs \<Longrightarrow> Q x \<Longrightarrow> P x) \<Longrightarrow> length (filter Q xs) \<le> length (filter P xs)"
  by (induction xs) auto

lemma filter_length_strict:
  "(\<And>x. x \<in> set xs \<Longrightarrow> Q x \<Longrightarrow> P x) \<Longrightarrow> y \<in> set xs \<Longrightarrow> P y \<Longrightarrow> \<not> Q y
     \<Longrightarrow> length (filter Q xs) < length (filter P xs)"
proof (induction xs)
  case Nil
  then show ?case by simp
next
  case (Cons x xs)
  show ?case
  proof (cases "y = x")
    case True
    with Cons.prems filter_length_mono [of xs Q P] show ?thesis
      by (auto simp: less_Suc_eq_le)
  next
    case False
    with Cons show ?thesis by auto
  qed
qed

lemma nat_and_mask_numerals:
  "(x :: nat) AND 255 = x mod 256" "(x :: nat) AND 8388607 = x mod 8388608"
  "(x :: nat) AND 2147483647 = x mod 2147483648"
proof -
  have "(x :: nat) AND mask 8 = x mod 2 ^ 8" "(x :: nat) AND mask 23 = x mod 2 ^ 23"
    "(x :: nat) AND mask 31 = x mod 2 ^ 31"
    by (simp_all only: take_bit_eq_mask [symmetric] take_bit_eq_mod)
  then show "(x :: nat) AND 255 = x mod 256" "(x :: nat) AND 8388607 = x mod 8388608"
    "(x :: nat) AND 2147483647 = x mod 2147483648"
    by (simp_all add: mask_eq_exp_minus_1)
qed

lemma f32_exp_unat: "f32_exp w = (unat w div 2 ^ 23) mod 256"
proof -
  have "unat (drop_bit 23 w) = unat w div 2 ^ 23"
    unfolding unat_drop_bit_eq by (simp add: drop_bit_eq_div)
  then show ?thesis
    by (simp add: f32_exp_def unsigned_and_eq nat_and_mask_numerals del: drop_bit_eq_div)
qed

lemma f32_man_unat: "f32_man w = unat w mod 2 ^ 23"
  by (simp add: f32_man_def unsigned_and_eq nat_and_mask_numerals)

lemma f32_is_zero_unat: "f32_is_zero w = (unat w mod 2 ^ 31 = 0)"
proof -
  have "(w AND 0x7FFFFFFF = 0) = (unat (w AND 0x7FFFFFFF) = 0)"
    by (simp add: unat_eq_0)
  then show ?thesis
    by (simp add: f32_is_zero_def unsigned_and_eq nat_and_mask_numerals)
qed

lemma f32_nonzero_pack: "f32_nonzero (f32_pack s y) = f32_nonzero y"
proof -
  have "(y OR 0x80000000) AND 0x7FFFFFFF = y AND 0x7FFFFFFF"
    by (simp add: bit.conj_disj_distrib2)
  then show ?thesis by (simp add: f32_nonzero_def f32_is_zero_def f32_pack_def)
qed

lemma bit_length_bounds:
  "0 < p \<Longrightarrow> 2 ^ (bit_length p - 1) \<le> p \<and> p < 2 ^ bit_length p"
proof (induction p rule: bit_length.induct)
  case (1 n)
  show ?case
  proof (cases "n div 2 = 0")
    case True
    with 1 have "n = 1" by (simp add: div_eq_0_iff)
    then show ?thesis by (simp add: bit_length.simps)
  next
    case False
    with 1 have ih: "2 ^ (bit_length (n div 2) - 1) \<le> n div 2" "n div 2 < 2 ^ bit_length (n div 2)"
      by simp_all
    have pos: "0 < bit_length (n div 2)"
      using False by (simp add: bit_length.simps [of "n div 2"])
    have bl: "bit_length n = Suc (bit_length (n div 2))"
      using 1(2) by (simp add: bit_length.simps [of n])
    from pos have "(2::nat) ^ bit_length (n div 2) = 2 * 2 ^ (bit_length (n div 2) - 1)"
      by (cases "bit_length (n div 2)") simp_all
    with ih show ?thesis unfolding bl by simp linarith
  qed
qed


lemma f32_round_nonzero:
  assumes p: "0 < p" and q: "q \<le> p * 2 ^ 149"
  shows "f32_nonzero (f32_round p q)"
proof -
  define e0 where "e0 = int (bit_length p) - int (bit_length q)"
  define e where "e = (if q * 2 ^ nat e0 \<le> p * 2 ^ nat (- e0) then e0 else e0 - 1)"
  define e' where "e' = max e (- 126)"
  define N where "N = p * 2 ^ nat (23 - e')"
  define D where "D = q * 2 ^ nat (e' - 23)"
  define m where "m = N div D"
  define r where "r = N mod D"
  define m' where "m' = (if D < 2 * r \<or> (2 * r = D \<and> odd m) then m + 1 else m)"
  define bits where "bits = nat (e' + 126) * 2 ^ 23 + m'"
  have fr: "f32_round p q = (if 0x7F800000 \<le> bits then 0x7F800000 else of_nat bits)"
    unfolding f32_round_def Let_def bits_def m'_def r_def m_def D_def N_def e'_def e_def e0_def
    using p by simp
  have pos: "0 < bits"
  proof (cases "e' = - 126")
    case True
    then have N: "N = p * 2 ^ 149" and D: "D = q" by (simp_all add: N_def D_def)
    have "0 < m'"
    proof (cases "q = 0")
      case True
      with D N p have "D < 2 * r" by (simp add: r_def)
      then show ?thesis by (simp add: m'_def)
    next
      case False
      with q N D have "1 \<le> m" unfolding m_def
        by (simp add: Suc_le_eq div_greater_zero_iff)
      then show ?thesis by (simp add: m'_def)
    qed
    then show ?thesis by (simp add: bits_def)
  next
    case False
    then have "0 < nat (e' + 126)" by (simp add: e'_def)
    then have "0 < nat (e' + 126) * (2 :: nat) ^ 23" by simp
    then show ?thesis unfolding bits_def by linarith
  qed
  show ?thesis
  proof (cases "0x7F800000 \<le> bits")
    case True
    then show ?thesis by (simp add: fr f32_nonzero_def f32_is_zero_def)
  next
    case False
    then have b: "bits < 2 ^ 31" "bits < 2 ^ 32" by simp_all
    then have "unat (word_of_nat bits :: 32 word) = bits"
      by (simp add: unat_of_nat)
    with pos b False show ?thesis
      by (simp add: fr f32_nonzero_def f32_is_zero_unat)
  qed
qed

lemma bit_length_1: "bit_length (Suc 0) = Suc 0"
  by (simp add: bit_length.simps [of "Suc 0"] bit_length.simps [of 0])

lemma f32_of_u32_range:
  assumes n: "0 < n" "n < 2 ^ 32"
  shows "\<exists>b. f32_round n 1 = of_nat b \<and> 0x3F800000 \<le> b \<and> b \<le> 0x4F800000"
proof -
  define k where "k = bit_length n - 1"
  from bit_length_bounds [OF n(1)] have lo: "2 ^ k \<le> n" and hi: "n < 2 ^ bit_length n"
    by (simp_all add: k_def)
  have blpos: "0 < bit_length n" using n(1) by (simp add: bit_length.simps [of n])
  then have bl: "bit_length n = Suc k" by (simp add: k_def)
  have hi': "n < 2 * 2 ^ k" using hi bl by simp
  have k31: "k \<le> 31"
  proof (rule ccontr)
    assume "\<not> k \<le> 31"
    then have "32 \<le> k" by simp
    then have "(2::nat) ^ 32 \<le> 2 ^ k" by (rule power_increasing) simp
    with lo n(2) show False by linarith
  qed
  define N where "N = n * 2 ^ (23 - k)"
  define D where "D = (2::nat) ^ (k - 23)"
  define m where "m = N div D"
  define r where "r = N mod D"
  define m' where "m' = (if D < 2 * r \<or> (2 * r = D \<and> odd m) then m + 1 else m)"
  define bits where "bits = (k + 126) * 2 ^ 23 + m'"
  have e0: "int (bit_length n) - int (bit_length (Suc 0)) = int k"
    by (simp add: bl bit_length_1)
  have c: "Suc 0 * 2 ^ nat (int k) \<le> n * 2 ^ nat (- int k)" using lo by simp
  have i1: "max (int k) (- 126) = int k" by simp
  have i2: "nat (23 - int k) = 23 - k" "nat (int k - 23) = k - 23" "nat (int k + 126) = k + 126"
    by simp_all
  have "f32_round n (Suc 0) = (if 0x7F800000 \<le> bits then 0x7F800000 else of_nat bits)"
    unfolding f32_round_def Let_def e0 if_P [OF c] i1 i2
    using n(1) by (simp add: N_def D_def m_def r_def m'_def bits_def)
  then have fr: "f32_round n 1 = (if 0x7F800000 \<le> bits then 0x7F800000 else of_nat bits)"
    by simp
  have m: "2 ^ 23 \<le> m \<and> m < 2 ^ 24"
  proof (cases "k \<le> 23")
    case True
    then have D: "D = 1" and N: "N = n * 2 ^ (23 - k)" by (simp_all add: D_def N_def)
    define A :: nat where "A = 2 ^ (23 - k)"
    define B :: nat where "B = 2 ^ k"
    have ba: "B * A = 8388608"
      using True by (simp add: A_def B_def power_add [symmetric])
    have "B * A \<le> n * A" using lo by (simp add: B_def)
    moreover have "n * A < (2 * B) * A" using hi' by (simp add: A_def B_def)
    then have "n * A < 2 * (B * A)" by (simp add: mult.assoc)
    ultimately have "8388608 \<le> n * A \<and> n * A < 16777216" using ba by linarith
    then show ?thesis unfolding m_def D N by (simp add: A_def)
  next
    case False
    then have N: "N = n" by (simp add: N_def)
    have "(2::nat) ^ (23 + (k - 23)) = 2 ^ 23 * 2 ^ (k - 23)" by (rule power_add)
    moreover have "23 + (k - 23) = k" using False by simp
    ultimately have p0: "(2::nat) ^ k = 2 ^ 23 * 2 ^ (k - 23)" by simp
    then have p1: "(2::nat) ^ k = 2 ^ 23 * 2 ^ (k - 23)" "2 * (2::nat) ^ k = 2 ^ 24 * 2 ^ (k - 23)"
      by simp_all
    have "2 ^ 23 * D \<le> n" using lo p1 by (simp add: D_def)
    then have a: "2 ^ 23 \<le> n div D"
      by (simp add: D_def less_eq_div_iff_mult_less_eq)
    have "n < 2 ^ 24 * D" using hi' p1 by (simp add: D_def)
    then have b: "n div D < 2 ^ 24"
      by (simp add: D_def less_mult_imp_div_less)
    from a b show ?thesis by (simp add: m_def N)
  qed
  then have m': "2 ^ 23 \<le> m' \<and> m' \<le> 2 ^ 24" by (auto simp: m'_def)
  have lob: "0x3F800000 \<le> bits" using m' by (simp add: bits_def)
  have "(k + 126) * 2 ^ 23 \<le> (157 :: nat) * 2 ^ 23" using k31 by simp
  with m' have hib: "bits \<le> 0x4F800000" by (simp add: bits_def)
  then have "\<not> 0x7F800000 \<le> bits" by simp
  with fr lob hib show ?thesis by auto
qed


lemma f32_1000_facts:
  "\<not> f32_is_nan f32_1000" "\<not> f32_is_inf f32_1000" "\<not> f32_is_zero f32_1000"
  "f32_mag f32_1000 = (16384000, 16384)"
  by (simp_all add: f32_1000_def f32_is_nan_def f32_is_inf_def f32_is_zero_def f32_exp_def
      f32_man_def f32_mag_def)

lemma integer_float_facts:
  assumes b: "0x3F800000 \<le> b" "b \<le> 0x4F800000"
  shows "\<not> f32_is_nan (word_of_nat b)" "\<not> f32_is_inf (word_of_nat b)"
    and "0 < fst (f32_mag (word_of_nat b))" "snd (f32_mag (word_of_nat b)) \<le> 2 ^ 23"
proof -
  let ?x = "word_of_nat b :: 32 word"
  have u: "unat ?x = b" using b by (simp add: unat_of_nat)
  have d: "127 \<le> b div 2 ^ 23" "b div 2 ^ 23 \<le> 159" using b by simp_all
  then have e: "f32_exp ?x = b div 2 ^ 23" by (simp add: f32_exp_unat u)
  from e d show "\<not> f32_is_nan ?x" "\<not> f32_is_inf ?x"
    by (simp_all add: f32_is_nan_def f32_is_inf_def)
  from e d show "0 < fst (f32_mag ?x)"
    by (simp add: f32_mag_def Let_def)
  have "(2::nat) ^ (150 - b div 2 ^ 23) \<le> 2 ^ 23"
    using d by (intro power_increasing) simp_all
  with e d show "snd (f32_mag ?x) \<le> 2 ^ 23"
    by (simp add: f32_mag_def Let_def)
qed

text \<open>
  A non-zero \<^verbatim>\<open>uint32_t\<close> converts to a float of at least 1, and its quotient by 1000 is
  not a zero.
\<close>

lemma scaled_component_nonzero:
  assumes "n \<noteq> 0"
  shows "f32_nonzero (f32_div (f32_of_u32 n) f32_1000)"
proof -
  have "0 < unat n" using assms by (simp add: unat_gt_0)
  moreover have "unat n < 2 ^ 32" using unsigned_less [of n] by simp
  ultimately obtain b where x: "f32_of_u32 n = word_of_nat b"
    and b: "0x3F800000 \<le> b" "b \<le> 0x4F800000"
    using f32_of_u32_range [of "unat n"] by (auto simp: f32_of_u32_def)
  obtain pa qa where pq: "f32_mag (word_of_nat b :: 32 word) = (pa, qa)"
    by (cases "f32_mag (word_of_nat b :: 32 word)")
  from integer_float_facts(3,4) [OF b] pq have pa: "0 < pa" and qa: "qa \<le> 2 ^ 23" by simp_all
  have "f32_div (f32_of_u32 n) f32_1000
      = f32_pack (f32_sign (word_of_nat b) \<noteq> f32_sign f32_1000)
          (f32_round (pa * 16384) (qa * 16384000))"
    using integer_float_facts(1,2) [OF b]
    by (simp add: f32_div_def Let_def x f32_1000_facts pq)
  moreover have "f32_nonzero (f32_round (pa * 16384) (qa * 16384000))"
  proof (rule f32_round_nonzero)
    show "0 < pa * 16384" using pa by simp
    have "qa * 16384000 \<le> 2 ^ 23 * 16384000" using qa by simp
    also have "\<dots> \<le> 1 * 16384 * 2 ^ 149" by simp
    also have "\<dots> \<le> pa * 16384 * 2 ^ 149" using pa by simp
    finally show "qa * 16384000 \<le> pa * 16384 * 2 ^ 149" .
  qed
  ultimately show ?thesis by (simp add: f32_nonzero_pack)
qed

lemma component_nonzero_iff:
  "f32_nonzero (component seed) = (seed mod 10 = 0 \<and> seed mod 2000 \<noteq> 1000)"
proof
  assume "f32_nonzero (component seed)"
  then show "seed mod 10 = 0 \<and> seed mod 2000 \<noteq> 1000" by (rule component_nonzero_D)
next
  assume a: "seed mod 10 = 0 \<and> seed mod 2000 \<noteq> 1000"
  then have "seed mod 2000 - 1000 \<noteq> 0" by simp
  then have "f32_nonzero (f32_div (f32_of_u32 (seed mod 2000 - 1000)) f32_1000)"
    by (rule scaled_component_nonzero)
  with a show "f32_nonzero (component seed)" by (simp add: component_def)
qed

lemma filter_length_split:
  "length (filter P xs) = length (filter (\<lambda>x. P x \<and> Q x) xs) + length (filter (\<lambda>x. P x \<and> \<not> Q x) xs)"
  by (induction xs) auto

text \<open>
  Claim C8, as amended. For every byte input, \<open>active_dimensions\<close> of the generated vector is
  the number of dimensions that the fill rule selected (those whose sequence value is
  divisible by 10). The non-zero components are exactly the selected dimensions whose sequence
  value is not congruent to 1000 modulo 2000; so \<open>active_dimensions\<close> is the number of
  non-zero components plus the number of selected dimensions whose sequence value is congruent
  to 1000 modulo 2000, which are stored as \<open>0.0\<close> and counted.
\<close>

theorem active_dimensions_counts_selected:
  "unat (active_dimensions (create_holographic_vector input)) =
     length (filter (selected input) [0..<HOLOGRAPHIC_DIMENSIONS]) \<and>
   nonzero_components (create_holographic_vector input) =
     length (filter (\<lambda>i. selected input i \<and> dimension_seed input i mod 2000 \<noteq> 1000)
       [0..<HOLOGRAPHIC_DIMENSIONS]) \<and>
   unat (active_dimensions (create_holographic_vector input)) =
     nonzero_components (create_holographic_vector input) +
     length (filter (\<lambda>i. selected input i \<and> dimension_seed input i mod 2000 = 1000)
       [0..<HOLOGRAPHIC_DIMENSIONS])"
proof -
  have n: "nonzero_components (create_holographic_vector input) =
     length (filter (\<lambda>i. selected input i \<and> dimension_seed input i mod 2000 \<noteq> 1000)
       [0..<HOLOGRAPHIC_DIMENSIONS])"
    by (simp add: nonzero_components_create component_nonzero_iff selected_def)
  have "length (filter (selected input) [0..<HOLOGRAPHIC_DIMENSIONS]) =
      length (filter (\<lambda>i. selected input i \<and> dimension_seed input i mod 2000 \<noteq> 1000)
        [0..<HOLOGRAPHIC_DIMENSIONS]) +
      length (filter (\<lambda>i. selected input i \<and> \<not> dimension_seed input i mod 2000 \<noteq> 1000)
        [0..<HOLOGRAPHIC_DIMENSIONS])"
    by (rule filter_length_split)
  with n show ?thesis by (simp add: unat_create_active)
qed

lemma trait_dormant_hash: "hash_data (cstr ''TRAIT_DORMANT'') = 0xbba589a3"
  by (simp add: hash_data_def cstr_def)

lemma trait_dormant_seed_296: "lcg_seq 0xbba589a3 297 = 1105823000"
  by code_simp

text \<open>
  The two numbers differ for the input \<^verbatim>\<open>"TRAIT_DORMANT"\<close> (with its terminating NUL, as
  the kernel passes it): the sequence value of dimension 296 is 1105823000, which is
  divisible by 10 and congruent to 1000 modulo 2000, so the component is
  \<^verbatim>\<open>(float)0 / 1000.0f\<close>, a zero that has been counted.
\<close>

theorem active_dimensions_counterexample:
  "unat (active_dimensions (create_holographic_vector (cstr ''TRAIT_DORMANT'')))
     \<noteq> nonzero_components (create_holographic_vector (cstr ''TRAIT_DORMANT''))"
proof -
  let ?inp = "cstr ''TRAIT_DORMANT''"
  have seed: "dimension_seed ?inp 296 = 1105823000"
    using trait_dormant_seed_296 by (simp add: dimension_seed_def trait_dormant_hash)
  have "length (filter (\<lambda>i. f32_nonzero (component (dimension_seed ?inp i))) [0..<HOLOGRAPHIC_DIMENSIONS])
      < length (filter (selected ?inp) [0..<HOLOGRAPHIC_DIMENSIONS])"
  proof (rule filter_length_strict [where y = 296])
    show "selected ?inp x" if "f32_nonzero (component (dimension_seed ?inp x))" for x
      using that by (auto dest: component_nonzero_D simp: selected_def)
    show "296 \<in> set [0..<HOLOGRAPHIC_DIMENSIONS]" by simp
    show "selected ?inp 296" by (simp add: selected_def seed)
    show "\<not> f32_nonzero (component (dimension_seed ?inp 296))"
      by (simp add: seed component_def zero_component f32_nonzero_def f32_is_zero_def)
  qed
  then show ?thesis
    by (simp add: unat_create_active nonzero_components_create)
qed


section \<open>The pattern store\<close>

lemma shift_fold_length [simp]:
  "length (fold (\<lambda>i p. p[i := p ! Suc i]) [0..<n] p) = length p"
  by (induction n) simp_all

lemma shift_fold_nth:
  "Suc n \<le> length p \<Longrightarrow> j < length p \<Longrightarrow>
   fold (\<lambda>i p. p[i := p ! Suc i]) [0..<n] p ! j = (if j < n then p ! Suc j else p ! j)"
proof (induction n arbitrary: j)
  case 0
  then show ?case by simp
next
  case (Suc n)
  then have "fold (\<lambda>i p. p[i := p ! Suc i]) [0..<n] p ! Suc n = p ! Suc n"
    by simp
  with Suc show ?case
    by (auto simp: nth_list_update less_Suc_eq)
qed

lemma evict_oldest_eq:
  assumes "length pool = MAX_MEMORY_ENTRIES"
  shows "evict_oldest pool = tl pool @ [last pool]"
proof (rule nth_equalityI)
  show "length (evict_oldest pool) = length (tl pool @ [last pool])"
    using assms by (simp add: evict_oldest_def)
next
  fix j assume "j < length (evict_oldest pool)"
  then have j: "j < 128" using assms by (simp add: evict_oldest_def)
  have ne: "pool \<noteq> []" using assms by auto
  show "evict_oldest pool ! j = (tl pool @ [last pool]) ! j"
  proof (cases "j < 127")
    case True
    with assms show ?thesis
      by (simp add: evict_oldest_def shift_fold_nth nth_append nth_tl)
  next
    case False
    with j have "j = 127" by arith
    with assms ne show ?thesis
      by (simp add: evict_oldest_def shift_fold_nth nth_append last_conv_nth)
  qed
qed

lemma records_alt: "records hs = map entry_record (take (memory_count hs) (memory_pool hs))"
  by (simp add: records_def)

lemma encode_store_ok: "store_ok hs \<Longrightarrow> store_ok (encode_holographic_memory i o' hs)"
  by (auto simp: store_ok_def encode_holographic_memory_def Let_def evict_oldest_def)

lemma encode_count:
  "store_ok hs \<Longrightarrow> memory_count (encode_holographic_memory i o' hs)
     = min MAX_MEMORY_ENTRIES (memory_count hs + 1)"
  by (auto simp: store_ok_def encode_holographic_memory_def Let_def)

lemma encode_records:
  assumes "store_ok hs"
  shows "records (encode_holographic_memory i o' hs) =
     (if memory_count hs = MAX_MEMORY_ENTRIES then tl (records hs) else records hs) @ [(i, o', 1)]"
proof (cases "memory_count hs = MAX_MEMORY_ENTRIES")
  case True
  with assms have l: "length (memory_pool hs) = MAX_MEMORY_ENTRIES" by (simp add: store_ok_def)
  have ne: "memory_pool hs \<noteq> []" using l by auto
  have "take 128 ((tl (memory_pool hs) @ [last (memory_pool hs)])[127 := e]) = tl (memory_pool hs) @ [e]" for e
    using l by (simp add: list_update_append)
  moreover have "take 128 (memory_pool hs) = memory_pool hs" using l by simp
  ultimately show ?thesis
    using True l
    by (simp add: records_alt encode_holographic_memory_def Let_def evict_oldest_eq map_tl entry_record_def)
next
  case False
  with assms have c: "memory_count hs < length (memory_pool hs)" by (simp add: store_ok_def)
  then have "take (Suc (memory_count hs)) ((memory_pool hs)[memory_count hs := e])
      = take (memory_count hs) (memory_pool hs) @ [e]" for e
    by (simp add: take_Suc_conv_app_nth)
  with False assms show ?thesis
    by (simp add: records_alt encode_holographic_memory_def Let_def store_ok_def entry_record_def)
qed

lemma records_length: "store_ok hs \<Longrightarrow> length (records hs) = memory_count hs"
  by (simp add: records_def store_ok_def)

lemma encode_records_lastn:
  assumes "store_ok hs"
  shows "records (encode_holographic_memory i o' hs) = lastn MAX_MEMORY_ENTRIES (records hs @ [(i, o', 1)])"
proof (cases "memory_count hs = MAX_MEMORY_ENTRIES")
  case True
  then have "length (records hs) = 128" using assms by (simp add: records_length)
  then show ?thesis using True assms
    by (simp add: encode_records lastn_def drop_Suc)
next
  case False
  then have "length (records hs) < 128" using assms by (simp add: records_length store_ok_def)
  then show ?thesis using False assms
    by (simp add: encode_records lastn_def)
qed

lemma lastn_lastn_snoc: "lastn n (lastn n ys @ [z]) = lastn n (ys @ [z])"
proof (cases "length ys \<le> n")
  case True
  then show ?thesis by (simp add: lastn_def)
next
  case False
  then have "Suc (length ys) - n = Suc (length ys - n)" by simp
  with False show ?thesis by (simp add: lastn_def)
qed

lemma insert_all_records:
  "store_ok hs \<Longrightarrow>
   store_ok (insert_all xs hs) \<and>
   records (insert_all xs hs)
     = lastn MAX_MEMORY_ENTRIES (records hs @ map (\<lambda>io. (fst io, snd io, 1)) xs)"
proof (induction xs rule: rev_induct)
  case Nil
  then show ?case by (simp add: insert_all_def lastn_def records_length store_ok_def)
next
  case (snoc x xs)
  then have ok: "store_ok (insert_all xs hs)" by simp
  have step: "insert_all (xs @ [x]) hs = encode_holographic_memory (fst x) (snd x) (insert_all xs hs)"
    by (simp add: insert_all_def)
  show ?case
    using snoc ok
    by (simp add: step encode_store_ok encode_records_lastn lastn_lastn_snoc)
qed

lemma retrieve_scan_NULL:
  "(\<And>j. j < n \<Longrightarrow> entry_valid (pool ! j) = 0 \<or> hash_signature (input_pattern (pool ! j)) \<noteq> hash)
   \<Longrightarrow> retrieve_scan pool hash n = NULL"
  by (induction n) auto

lemma records_nth:
  "store_ok hs \<Longrightarrow> j < memory_count hs \<Longrightarrow> records hs ! j = entry_record (memory_pool hs ! j)"
  by (simp add: records_alt store_ok_def)

text \<open>
  Claim C2. Take a store with its 128 slots and any record count up to 128, and insert 129
  records whose input vectors have pairwise distinct signatures. The store then holds exactly
  128 records, namely the last 128 inserted, in insertion order; a lookup of the signature
  of the first inserted vector returns the null pointer; a lookup of the signature of the
  last inserted vector returns the address of the output pattern of slot 127, which is the
  output vector inserted last.
\<close>

theorem store_eviction:
  assumes ok: "store_ok hs"
    and len: "length xs = MAX_MEMORY_ENTRIES + 1"
    and dist: "distinct (map (\<lambda>io. hash_signature (fst io)) xs)"
  shows "memory_count (insert_all xs hs) = MAX_MEMORY_ENTRIES \<and>
         records (insert_all xs hs) = map (\<lambda>io. (fst io, snd io, 1)) (tl xs) \<and>
         retrieve_holographic_memory (hash_signature (fst (hd xs))) (insert_all xs hs) = NULL \<and>
         retrieve_holographic_memory (hash_signature (fst (last xs))) (insert_all xs hs)
           = Pool_output (MAX_MEMORY_ENTRIES - 1) \<and>
         output_pattern (memory_pool (insert_all xs hs) ! (MAX_MEMORY_ENTRIES - 1)) = snd (last xs)"
proof -
  let ?hs = "insert_all xs hs"
  let ?f = "\<lambda>io :: HolographicVector \<times> HolographicVector. (fst io, snd io, 1 :: u8)"
  from insert_all_records [OF ok, of xs]
  have ok': "store_ok ?hs"
    and r: "records ?hs = lastn MAX_MEMORY_ENTRIES (records hs @ map ?f xs)"
    by simp_all
  have ne: "xs \<noteq> []" using len by auto
  have "length (records hs @ map ?f xs) - 128 = Suc (length (records hs))"
    using len by simp
  then have recs: "records ?hs = map ?f (tl xs)"
    using r by (simp add: lastn_def drop_Suc map_tl)
  then have "length (records ?hs) = 128" using len by simp
  then have cnt: "memory_count ?hs = 128" using ok' by (simp add: records_length)
  have nth: "entry_record (memory_pool ?hs ! j) = ?f (xs ! Suc j)" if "j < 128" for j
    using that records_nth [OF ok', of j] cnt recs len by (simp add: nth_tl)
  have first: "retrieve_holographic_memory (hash_signature (fst (hd xs))) ?hs = NULL"
    unfolding retrieve_holographic_memory_def cnt
  proof (rule retrieve_scan_NULL)
    fix j :: nat assume j: "j < 128"
    from nth [OF j] have "input_pattern (memory_pool ?hs ! j) = fst (xs ! Suc j)"
      by (simp add: entry_record_def)
    moreover have "hash_signature (fst (xs ! Suc j)) \<noteq> hash_signature (fst (xs ! 0))"
      using dist j len by (simp add: distinct_conv_nth)
    ultimately show "entry_valid (memory_pool ?hs ! j) = 0 \<or>
        hash_signature (input_pattern (memory_pool ?hs ! j)) \<noteq> hash_signature (fst (hd xs))"
      using ne by (simp add: hd_conv_nth)
  qed
  have l: "last xs = xs ! Suc 127" using ne len by (simp add: last_conv_nth)
  from nth [of 127] l have e: "entry_record (memory_pool ?hs ! 127) = ?f (last xs)" by simp
  then have last: "retrieve_holographic_memory (hash_signature (fst (last xs))) ?hs = Pool_output 127"
    by (simp add: retrieve_holographic_memory_def cnt entry_record_def numeral_eq_Suc)
  from cnt recs first last e show ?thesis by (simp add: entry_record_def)
qed

lemma fold_list_update_length [simp]:
  "length (fold (\<lambda>i p. p[i := f i p]) is p) = length p"
  by (induction "is" arbitrary: p) simp_all

lemma store_ok_zero_store: "store_ok zero_store"
  by (simp add: store_ok_def zero_store_def)

lemma numbered_distinct:
  "distinct (map (\<lambda>io. hash_signature (fst io)) (map (\<lambda>n. (numbered_vector n, numbered_vector (n + 1))) [0..<129]))"
proof -
  have "inj_on (\<lambda>n. word_of_nat n :: u32) {0..<129}"
    by (rule inj_onI) (simp add: word_of_nat_eq_iff take_bit_nat_eq_self)
  then show ?thesis
    by (simp add: distinct_map comp_def numbered_vector_def)
qed

theorem store_eviction_witness:
  "memory_count (insert_all (map (\<lambda>n. (numbered_vector n, numbered_vector (n + 1))) [0..<129]) zero_store) = 128 \<and>
   retrieve_holographic_memory 0
     (insert_all (map (\<lambda>n. (numbered_vector n, numbered_vector (n + 1))) [0..<129]) zero_store) = NULL \<and>
   retrieve_holographic_memory 128
     (insert_all (map (\<lambda>n. (numbered_vector n, numbered_vector (n + 1))) [0..<129]) zero_store) = Pool_output 127"
proof -
  let ?xs = "map (\<lambda>n. (numbered_vector n, numbered_vector (n + 1))) [0..<129]"
  have len: "length ?xs = MAX_MEMORY_ENTRIES + 1" by simp
  have h: "hash_signature (fst (hd ?xs)) = 0"
    by (simp add: hd_map upt_conv_Cons numbered_vector_def)
  have l: "hash_signature (fst (last ?xs)) = 128"
    by (simp add: last_map numbered_vector_def)
  from store_eviction [OF store_ok_zero_store len numbered_distinct] h l
  show ?thesis by simp
qed


section \<open>The entity arena\<close>

lemma visit_frame_simps [simp]:
  "visit_frame (e\<lparr>age := a\<rparr>) = visit_frame e"
  "visit_frame (e\<lparr>interaction_count := b\<rparr>) = visit_frame e"
  "visit_frame (e\<lparr>spawn_count := c\<rparr>) = visit_frame e"
  "visit_frame (e\<lparr>fitness_score := d\<rparr>) = visit_frame e"
  "visit_frame (e\<lparr>marked_for_gc := g\<rparr>) = visit_frame e"
  by (simp_all add: visit_frame_def)

subsection \<open>spawn\<close>

lemma spawn_entity_full: "MAX_ENTITIES \<le> active_entity_count k \<Longrightarrow> spawn_entity k = (None, k)"
  by (simp add: spawn_entity_def)

lemma spawn_entity_fst:
  "active_entity_count k < MAX_ENTITIES \<Longrightarrow> fst (spawn_entity k) = Some (active_entity_count k)"
  by (simp add: spawn_entity_def Let_def)

lemma spawn_entity_length [simp]:
  "length (entity_pool (snd (spawn_entity k))) = length (entity_pool k)"
  by (simp add: spawn_entity_def Let_def)

lemma spawn_entity_other:
  "j \<noteq> active_entity_count k \<Longrightarrow> entity_pool (snd (spawn_entity k)) ! j = entity_pool k ! j"
  by (simp add: spawn_entity_def Let_def)

lemma spawn_entity_timestamp:
  "global_timestamp (holo_system (snd (spawn_entity k))) =
     (if active_entity_count k < MAX_ENTITIES \<and>
         retrieve_holographic_memory (hash_data (cstr ''GENOME_SIMPLE_RULE_1'')) (holo_system k) = NULL
      then global_timestamp (holo_system k) + 1 else global_timestamp (holo_system k))"
  by (simp add: spawn_entity_def Let_def create_signature encode_holographic_memory_def)

lemma spawn_entity_new:
  assumes "active_entity_count k < MAX_ENTITIES" "length (entity_pool k) = MAX_ENTITIES"
  shows "entity_id (entity_pool (snd (spawn_entity k)) ! active_entity_count k) = of_nat (active_entity_count k)"
    and "marked_for_gc (entity_pool (snd (spawn_entity k)) ! active_entity_count k) = 0"
    and "age (entity_pool (snd (spawn_entity k)) ! active_entity_count k) = 0"
    and "fitness_score (entity_pool (snd (spawn_entity k)) ! active_entity_count k) = 0"
    and "is_active (entity_pool (snd (spawn_entity k)) ! active_entity_count k) = 1"
  using assms by (simp_all add: spawn_entity_def Let_def)

subsection \<open>The rule step\<close>

lemma mutate_child_length [simp]: "length (entity_pool (mutate_child i c k)) = length (entity_pool k)"
  by (simp add: mutate_child_def Let_def)

lemma mutate_child_other:
  "j \<noteq> i \<Longrightarrow> j \<noteq> c \<Longrightarrow> entity_pool (mutate_child i c k) ! j = entity_pool k ! j"
  by (simp add: mutate_child_def Let_def)

lemma mutate_child_parent:
  "i \<noteq> c \<Longrightarrow> i < length (entity_pool k) \<Longrightarrow>
   entity_pool (mutate_child i c k) ! i =
     (entity_pool k ! i)\<lparr>spawn_count := spawn_count (entity_pool k ! i) + 1,
                          fitness_score := fitness_score (entity_pool k ! i) + 10\<rparr>"
  by (simp add: mutate_child_def Let_def)

lemma mutate_child_holo [simp]: "holo_system (mutate_child i c k) = holo_system k"
  by (simp add: mutate_child_def Let_def)

lemma apply_rules_eq:
  "apply_rules i (nb, k) =
     (let entity = entity_pool k ! i; na = neighbor_active k i
      in if is_active entity = 0 \<and> 0 < na then
           (nb\<lparr>next_active := (next_active nb)[i := 1],
               next_state := (next_state nb)[i := create_holographic_vector (cstr ''TRAIT_ACTIVE'')],
               next_domain := (next_domain nb)[i := set_name (next_domain nb ! i) (literal ''reactor'')]\<rparr>,
            k\<lparr>entity_pool := (entity_pool k)
                  [i := entity\<lparr>interaction_count := interaction_count entity + 1\<rparr>]\<rparr>)
         else if is_active entity \<noteq> 0 \<and> na = 0 then
           (nb\<lparr>next_active := (next_active nb)[i := 0],
               next_state := (next_state nb)[i := create_holographic_vector (cstr ''TRAIT_DORMANT'')],
               next_domain := (next_domain nb)[i := set_name (next_domain nb ! i) (literal ''sleeper'')]\<rparr>,
            k\<lparr>entity_pool := (entity_pool k)
                  [i := entity\<lparr>interaction_count := interaction_count entity + 1\<rparr>]\<rparr>)
         else if is_active entity \<noteq> 0 \<and> 2 \<le> na \<and> active_entity_count k < MAX_ENTITIES - 1 then
           (nb, mutate_child i (active_entity_count k) (snd (spawn_entity k)))
         else (nb, k))"
proof -
  have "(case spawn_entity k of (None, k') \<Rightarrow> (nb, k') | (Some c, k') \<Rightarrow> (nb, mutate_child i c k'))
      = (nb, mutate_child i (active_entity_count k) (snd (spawn_entity k)))"
    if "active_entity_count k < MAX_ENTITIES - 1"
    using that spawn_entity_fst [of k] by (cases "spawn_entity k") auto
  then show ?thesis
    by (simp add: apply_rules_def Let_def)
qed

lemma apply_rules_length [simp]:
  "length (entity_pool (snd (apply_rules i (nb, k)))) = length (entity_pool k)"
  by (simp add: apply_rules_eq Let_def)

lemma apply_rules_other:
  "j \<noteq> i \<Longrightarrow> j < active_entity_count k \<Longrightarrow>
   entity_pool (snd (apply_rules i (nb, k))) ! j = entity_pool k ! j"
  by (simp add: apply_rules_eq Let_def mutate_child_other spawn_entity_other)

lemma apply_rules_frame:
  "i < active_entity_count k \<Longrightarrow> active_entity_count k \<le> length (entity_pool k) \<Longrightarrow>
   visit_frame (entity_pool (snd (apply_rules i (nb, k))) ! i) = visit_frame (entity_pool k ! i)"
  by (simp add: apply_rules_eq Let_def mutate_child_parent spawn_entity_other)

lemma apply_rules_count_pair:
  "active_entity_count (snd (apply_rules i (nb, k))) =
     (if is_active (entity_pool k ! i) \<noteq> 0 \<and> 2 \<le> neighbor_active k i
         \<and> active_entity_count k < MAX_ENTITIES - 1
      then active_entity_count k + 1 else active_entity_count k)"
  using apply_rules_count [of i "(nb, k)"] by simp

lemma apply_rules_child:
  assumes "is_active (entity_pool k ! i) \<noteq> 0" "2 \<le> neighbor_active k i"
    "active_entity_count k < MAX_ENTITIES - 1"
  shows "snd (apply_rules i (nb, k)) = mutate_child i (active_entity_count k) (snd (spawn_entity k))"
  using assms by (auto simp: apply_rules_eq Let_def)

subsection \<open>Alignment and marking\<close>

lemma align_task_length [simp]:
  "length (entity_pool (snd (align_task i nbk))) = length (entity_pool (snd nbk))"
  by (simp add: align_task_def Let_def)

lemma align_task_other:
  "j \<noteq> i \<Longrightarrow> entity_pool (snd (align_task i nbk)) ! j = entity_pool (snd nbk) ! j"
  by (simp add: align_task_def Let_def)

lemma align_task_frame:
  "i < length (entity_pool (snd nbk)) \<Longrightarrow>
   visit_frame (entity_pool (snd (align_task i nbk)) ! i) = visit_frame (entity_pool (snd nbk) ! i)"
  by (simp add: align_task_def Let_def)

lemma align_task_keeps:
  "i < length (entity_pool (snd nbk)) \<Longrightarrow>
   age (entity_pool (snd (align_task i nbk)) ! i) = age (entity_pool (snd nbk) ! i) \<and>
   marked_for_gc (entity_pool (snd (align_task i nbk)) ! i) = marked_for_gc (entity_pool (snd nbk) ! i)"
  by (simp add: align_task_def Let_def)

lemma align_task_holo [simp]: "holo_system (snd (align_task i nbk)) = holo_system (snd nbk)"
  by (simp add: align_task_def Let_def)

lemma gc_mark_length [simp]: "length (entity_pool (gc_mark i k)) = length (entity_pool k)"
  by (simp add: gc_mark_def Let_def)

lemma gc_mark_other: "j \<noteq> i \<Longrightarrow> entity_pool (gc_mark i k) ! j = entity_pool k ! j"
  by (simp add: gc_mark_def Let_def)

lemma gc_mark_frame:
  "i < length (entity_pool k) \<Longrightarrow>
   visit_frame (entity_pool (gc_mark i k) ! i) = visit_frame (entity_pool k ! i)"
  by (simp add: gc_mark_def Let_def)

lemma gc_mark_holo [simp]: "holo_system (gc_mark i k) = holo_system k"
  by (simp add: gc_mark_def Let_def)

text \<open>What the marking statement leaves behind in entity \<open>i\<close>.\<close>

lemma gc_mark_self:
  "i < length (entity_pool k) \<Longrightarrow>
   age (entity_pool (gc_mark i k) ! i) = age (entity_pool k ! i) \<and>
   fitness_score (entity_pool (gc_mark i k) ! i) = fitness_score (entity_pool k ! i) \<and>
   marked_for_gc (entity_pool (gc_mark i k) ! i) =
     (if 1000 < age (entity_pool k ! i) \<and> fitness_score (entity_pool k ! i) < 50 then 1
      else marked_for_gc (entity_pool k ! i))"
  by (simp add: gc_mark_def Let_def)

lemma visit_entity_eq:
  "visit_entity i (nb, k) =
     (fst (align_task i (apply_rules i (buffer_entity i (entity_pool k ! i) nb, aged i k))),
      gc_mark i (snd (align_task i (apply_rules i (buffer_entity i (entity_pool k ! i) nb, aged i k)))))"
  by (simp add: visit_entity_def Let_def aged_def)

lemma aged_simps [simp]:
  "active_entity_count (aged i k) = active_entity_count k"
  "holo_system (aged i k) = holo_system k"
  "length (entity_pool (aged i k)) = length (entity_pool k)"
  by (simp_all add: aged_def)

lemma aged_other: "j \<noteq> i \<Longrightarrow> entity_pool (aged i k) ! j = entity_pool k ! j"
  by (simp add: aged_def)

lemma aged_self:
  "i < length (entity_pool k) \<Longrightarrow>
   entity_pool (aged i k) ! i = (entity_pool k ! i)\<lparr>age := age (entity_pool k ! i) + 1\<rparr>"
  by (simp add: aged_def)

lemma aged_is_active [simp]:
  "is_active (entity_pool (aged i k) ! j) = is_active (entity_pool k ! j)"
  by (cases "j = i"; cases "i < length (entity_pool k)") (simp_all add: aged_def list_update_beyond)

lemma aged_neighbor_active [simp]: "neighbor_active (aged i k) j = neighbor_active k j"
  by (simp add: neighbor_active_def prev_idx_def next_idx_def)

lemma visit_entity_count:
  "active_entity_count (snd (visit_entity i (nb, k))) =
     (if spawns k i then active_entity_count k + 1 else active_entity_count k)"
  by (simp add: visit_entity_eq apply_rules_count_pair spawns_def
      del: One_nat_def)

lemma visit_entity_length [simp]:
  "length (entity_pool (snd (visit_entity i (nb, k)))) = length (entity_pool k)"
  by (simp add: visit_entity_eq)

lemma visit_entity_other:
  "j \<noteq> i \<Longrightarrow> j < active_entity_count k \<Longrightarrow>
   entity_pool (snd (visit_entity i (nb, k))) ! j = entity_pool k ! j"
  by (simp add: visit_entity_eq gc_mark_other align_task_other apply_rules_other aged_other)

lemma visit_entity_frame:
  "i < active_entity_count k \<Longrightarrow> active_entity_count k \<le> length (entity_pool k) \<Longrightarrow>
   visit_frame (entity_pool (snd (visit_entity i (nb, k))) ! i) = visit_frame (entity_pool k ! i)"
  by (simp add: visit_entity_eq gc_mark_frame align_task_frame apply_rules_frame aged_self)

lemma visit_entity_arena_ok:
  "arena_ok k \<Longrightarrow> arena_ok (snd (visit_entity i (nb, k)))"
  by (auto simp: arena_ok_def visit_entity_count spawns_def)

lemma mutate_child_child:
  "i \<noteq> c \<Longrightarrow> c < length (entity_pool k) \<Longrightarrow>
   entity_pool (mutate_child i c k) ! c =
     (entity_pool k ! c)
       \<lparr>genome := genome (entity_pool k ! i), is_mutant := 1,
        state := (state (entity_pool k ! i))
          \<lparr>data := (data (state (entity_pool k ! i)))
             [unat (global_timestamp (holo_system k)) mod HOLOGRAPHIC_DIMENSIONS :=
                f32_neg (data (state (entity_pool k ! i)) !
                  (unat (global_timestamp (holo_system k)) mod HOLOGRAPHIC_DIMENSIONS))]\<rparr>,
        task_vector := task_vector (entity_pool k ! i), path_id := path_id (entity_pool k ! i),
        task_alignment := task_alignment (entity_pool k ! i)\<rparr>"
  by (simp add: mutate_child_def Let_def)

lemma apply_rules_keeps:
  "i < active_entity_count k \<Longrightarrow> active_entity_count k \<le> length (entity_pool k) \<Longrightarrow>
   age (entity_pool (snd (apply_rules i (nb, k))) ! i) = age (entity_pool k ! i) \<and>
   marked_for_gc (entity_pool (snd (apply_rules i (nb, k))) ! i) = marked_for_gc (entity_pool k ! i)"
  by (simp add: apply_rules_eq Let_def mutate_child_parent spawn_entity_other)

text \<open>After its visit, entity \<open>i\<close> carries the outcome of the marking test.\<close>

lemma visit_entity_marked:
  assumes "i < active_entity_count k" "active_entity_count k \<le> length (entity_pool k)"
  shows "marked_for_gc (entity_pool (snd (visit_entity i (nb, k))) ! i) =
     (if 1000 < age (entity_pool (snd (visit_entity i (nb, k))) ! i)
         \<and> fitness_score (entity_pool (snd (visit_entity i (nb, k))) ! i) < 50
      then 1 else marked_for_gc (entity_pool k ! i))"
proof -
  let ?k2 = "apply_rules i (buffer_entity i (entity_pool k ! i) nb, aged i k)"
  let ?k3 = "snd (align_task i ?k2)"
  have i: "i < length (entity_pool k)" using assms by simp
  then have l3: "i < length (entity_pool ?k3)" by simp
  have "marked_for_gc (entity_pool ?k3 ! i) = marked_for_gc (entity_pool (snd ?k2) ! i)"
    using i align_task_keeps [of i ?k2] by simp
  also have "\<dots> = marked_for_gc (entity_pool (aged i k) ! i)"
    using assms apply_rules_keeps [of i "aged i k"] by simp
  also have "\<dots> = marked_for_gc (entity_pool k ! i)"
    using i by (simp add: aged_self)
  finally have m: "marked_for_gc (entity_pool ?k3 ! i) = marked_for_gc (entity_pool k ! i)" .
  show ?thesis
    using gc_mark_self [OF l3] m by (simp add: visit_entity_eq)
qed

lemma visit_entity_age:
  assumes "i < active_entity_count k" "active_entity_count k \<le> length (entity_pool k)"
  shows "age (entity_pool (snd (visit_entity i (nb, k))) ! i) = age (entity_pool k ! i) + 1"
proof -
  let ?k2 = "apply_rules i (buffer_entity i (entity_pool k ! i) nb, aged i k)"
  let ?k3 = "snd (align_task i ?k2)"
  have i: "i < length (entity_pool k)" using assms by simp
  then have l3: "i < length (entity_pool ?k3)" by simp
  have "age (entity_pool ?k3 ! i) = age (entity_pool (snd ?k2) ! i)"
    using i align_task_keeps [of i ?k2] by simp
  also have "\<dots> = age (entity_pool (aged i k) ! i)"
    using assms apply_rules_keeps [of i "aged i k"] by simp
  also have "\<dots> = age (entity_pool k ! i) + 1"
    using i by (simp add: aged_self)
  finally show ?thesis
    using gc_mark_self [OF l3] by (simp add: visit_entity_eq)
qed

text \<open>The slot appended by the visit of entity \<open>i\<close>, when the spawn rule fires.\<close>

lemma visit_entity_child:
  assumes "spawns k i" "i < active_entity_count k" "length (entity_pool k) = MAX_ENTITIES"
  shows "entity_pool (snd (visit_entity i (nb, k))) ! active_entity_count k =
           entity_pool (mutate_child i (active_entity_count k) (snd (spawn_entity (aged i k))))
             ! active_entity_count k"
proof -
  have ne: "active_entity_count k \<noteq> i" using assms by simp
  have "snd (apply_rules i (buffer_entity i (entity_pool k ! i) nb, aged i k))
      = mutate_child i (active_entity_count k) (snd (spawn_entity (aged i k)))"
    using assms apply_rules_child [of "aged i k" i] by (simp add: spawns_def)
  then show ?thesis
    using ne by (simp add: visit_entity_eq gc_mark_other align_task_other)
qed

lemma visit_entity_child_fields:
  assumes "spawns k i" "i < active_entity_count k" "length (entity_pool k) = MAX_ENTITIES"
  shows "entity_id (entity_pool (snd (visit_entity i (nb, k))) ! active_entity_count k)
           = of_nat (active_entity_count k)"
    and "marked_for_gc (entity_pool (snd (visit_entity i (nb, k))) ! active_entity_count k) = 0"
proof -
  have c: "active_entity_count k < MAX_ENTITIES" "i \<noteq> active_entity_count k"
    using assms by (simp_all add: spawns_def)
  have l: "active_entity_count k < length (entity_pool (snd (spawn_entity (aged i k))))"
    using c assms by simp
  have n: "active_entity_count (aged i k) < MAX_ENTITIES" "length (entity_pool (aged i k)) = MAX_ENTITIES"
    using c assms by simp_all
  show "entity_id (entity_pool (snd (visit_entity i (nb, k))) ! active_entity_count k)
           = of_nat (active_entity_count k)"
    using spawn_entity_new(1) [OF n] c
    by (simp add: visit_entity_child [OF assms] mutate_child_child [OF c(2) l])
  show "marked_for_gc (entity_pool (snd (visit_entity i (nb, k))) ! active_entity_count k) = 0"
    using spawn_entity_new(2) [OF n] c
    by (simp add: visit_entity_child [OF assms] mutate_child_child [OF c(2) l])
qed

subsection \<open>The first loop\<close>

lemma visit_loop_rule:
  assumes "I i nbk"
    and "\<And>i nbk. I i nbk \<Longrightarrow> i < active_entity_count (snd nbk) \<Longrightarrow> I (Suc i) (visit_entity i nbk)"
  shows "\<exists>n. I n (visit_loop i nbk) \<and> active_entity_count (snd (visit_loop i nbk)) \<le> n"
  using assms(1)
proof (induction i nbk rule: visit_loop.induct)
  case (1 i nbk)
  show ?case
  proof (cases "i < active_entity_count (snd nbk)")
    case True
    with 1 assms(2) have "\<exists>n. I n (visit_loop (Suc i) (visit_entity i nbk)) \<and>
        active_entity_count (snd (visit_loop (Suc i) (visit_entity i nbk))) \<le> n"
      by blast
    with True show ?thesis by (simp add: visit_loop.simps [of i nbk])
  next
    case False
    with 1 show ?thesis by (auto simp: visit_loop.simps [of i nbk])
  qed
qed

lemma visit_loop_arena:
  assumes "arena_ok (snd nbk)" "i \<le> active_entity_count (snd nbk)"
  shows "arena_ok (snd (visit_loop i nbk)) \<and>
         active_entity_count (snd nbk) \<le> active_entity_count (snd (visit_loop i nbk))"
proof -
  define n0 where "n0 = active_entity_count (snd nbk)"
  define I where "I = (\<lambda>(i :: nat) (x :: next_buffers \<times> kernel).
      arena_ok (snd x) \<and> n0 \<le> active_entity_count (snd x))"
  have "\<exists>n. I n (visit_loop i nbk) \<and> active_entity_count (snd (visit_loop i nbk)) \<le> n"
  proof (rule visit_loop_rule)
    show "I i nbk" using assms by (simp add: I_def n0_def)
  next
    fix i x assume "I i x" "i < active_entity_count (snd x)"
    then show "I (Suc i) (visit_entity i x)"
      by (cases x) (auto simp: I_def visit_entity_arena_ok visit_entity_count)
  qed
  then show ?thesis by (auto simp: I_def n0_def)
qed

lemma visit_loop_frame:
  assumes "arena_ok (snd nbk)" "j < active_entity_count (snd nbk)"
  shows "visit_frame (entity_pool (snd (visit_loop i nbk)) ! j) = visit_frame (entity_pool (snd nbk) ! j)"
proof -
  define I where "I = (\<lambda>(i :: nat) (x :: next_buffers \<times> kernel).
      arena_ok (snd x) \<and> j < active_entity_count (snd x) \<and>
      visit_frame (entity_pool (snd x) ! j) = visit_frame (entity_pool (snd nbk) ! j))"
  have "\<exists>n. I n (visit_loop i nbk) \<and> active_entity_count (snd (visit_loop i nbk)) \<le> n"
  proof (rule visit_loop_rule)
    show "I i nbk" using assms by (simp add: I_def)
  next
    fix i x assume a: "I i x" "i < active_entity_count (snd x)"
    obtain nb k where x: "x = (nb, k)" by (cases x)
    from a x have ok: "arena_ok k" and j: "j < active_entity_count k"
      and f: "visit_frame (entity_pool k ! j) = visit_frame (entity_pool (snd nbk) ! j)"
      and i: "i < active_entity_count k"
      by (simp_all add: I_def)
    have "visit_frame (entity_pool (snd (visit_entity i (nb, k))) ! j) = visit_frame (entity_pool k ! j)"
    proof (cases "j = i")
      case True
      with i ok show ?thesis by (simp add: visit_entity_frame arena_ok_def)
    next
      case False
      with j show ?thesis by (simp add: visit_entity_other)
    qed
    with ok j f show "I (Suc i) (visit_entity i x)"
      by (auto simp: I_def x visit_entity_arena_ok visit_entity_count)
  qed
  then show ?thesis by (auto simp: I_def)
qed

text \<open>
  When the loop ends, every live entity has been visited and carries the outcome of the
  marking test; a mark that was not there before the loop is one that the test has set.
\<close>

lemma visit_loop_marks:
  assumes "arena_ok k"
  shows "\<forall>j < active_entity_count (snd (visit_loop 0 (nb, k))).
           (gc_due (entity_pool (snd (visit_loop 0 (nb, k))) ! j)
              \<longrightarrow> marked_for_gc (entity_pool (snd (visit_loop 0 (nb, k))) ! j) = 1) \<and>
           (marked_for_gc (entity_pool (snd (visit_loop 0 (nb, k))) ! j) \<noteq> 0
              \<longrightarrow> gc_due (entity_pool (snd (visit_loop 0 (nb, k))) ! j)
                  \<or> (j < active_entity_count k \<and> marked_for_gc (entity_pool k ! j) \<noteq> 0))"
proof -
  define n0 where "n0 = active_entity_count k"
  define orig where "orig = (\<lambda>j. if j < n0 then marked_for_gc (entity_pool k ! j) else 0)"
  define visited where "visited = (\<lambda>(j :: nat) e.
      (gc_due e \<longrightarrow> marked_for_gc e = 1) \<and> (marked_for_gc e \<noteq> 0 \<longrightarrow> gc_due e \<or> orig j \<noteq> 0))"
  define I where "I = (\<lambda>(i :: nat) (x :: next_buffers \<times> kernel).
      arena_ok (snd x) \<and> n0 \<le> active_entity_count (snd x) \<and>
      (\<forall>j < i. visited j (entity_pool (snd x) ! j)) \<and>
      (\<forall>j < active_entity_count (snd x). i \<le> j \<longrightarrow> marked_for_gc (entity_pool (snd x) ! j) = orig j))"
  have "\<exists>n. I n (visit_loop 0 (nb, k)) \<and> active_entity_count (snd (visit_loop 0 (nb, k))) \<le> n"
  proof (rule visit_loop_rule)
    show "I 0 (nb, k)" using assms by (simp add: I_def n0_def orig_def)
  next
    fix i x assume a: "I i x" "i < active_entity_count (snd x)"
    obtain nb' k' where x: "x = (nb', k')" by (cases x)
    let ?k = "snd (visit_entity i (nb', k'))"
    from a x have ok: "arena_ok k'" and i: "i < active_entity_count k'"
      and n0: "n0 \<le> active_entity_count k'"
      and d: "\<forall>j < i. visited j (entity_pool k' ! j)"
      and un: "\<forall>j < active_entity_count k'. i \<le> j \<longrightarrow> marked_for_gc (entity_pool k' ! j) = orig j"
      by (simp_all add: I_def)
    have len: "active_entity_count k' \<le> length (entity_pool k')" "length (entity_pool k') = MAX_ENTITIES"
      using ok by (simp_all add: arena_ok_def)
    have other: "entity_pool ?k ! j = entity_pool k' ! j" if "j \<noteq> i" "j < active_entity_count k'" for j
      using that by (simp add: visit_entity_other)
    have self: "marked_for_gc (entity_pool ?k ! i) = (if gc_due (entity_pool ?k ! i) then 1 else orig i)"
      using visit_entity_marked [OF i len(1), of nb'] un i by (simp add: gc_due_def)
    have 1: "\<forall>j < Suc i. visited j (entity_pool ?k ! j)"
    proof (intro allI impI)
      fix j assume "j < Suc i"
      then consider "j = i" | "j < i" by arith
      then show "visited j (entity_pool ?k ! j)"
      proof cases
        case 1
        with self show ?thesis by (simp add: visited_def)
      next
        case 2
        with d i other [of j] show ?thesis by simp
      qed
    qed
    have 2: "\<forall>j < active_entity_count ?k. Suc i \<le> j \<longrightarrow> marked_for_gc (entity_pool ?k ! j) = orig j"
    proof (intro allI impI)
      fix j assume j: "j < active_entity_count ?k" "Suc i \<le> j"
      then have "j < active_entity_count k' \<or> (j = active_entity_count k' \<and> spawns k' i)"
        by (auto simp: visit_entity_count split: if_splits)
      then show "marked_for_gc (entity_pool ?k ! j) = orig j"
      proof
        assume "j < active_entity_count k'"
        with j un other [of j] show ?thesis by simp
      next
        assume c: "j = active_entity_count k' \<and> spawns k' i"
        then have "marked_for_gc (entity_pool ?k ! j) = 0"
          using visit_entity_child_fields(2) [OF _ i len(2), of nb'] by simp
        with c n0 show ?thesis by (simp add: orig_def)
      qed
    qed
    from ok n0 1 2 show "I (Suc i) (visit_entity i x)"
      by (auto simp: I_def x visit_entity_arena_ok visit_entity_count)
  qed
  then obtain n where n: "active_entity_count (snd (visit_loop 0 (nb, k))) \<le> n"
    and v: "\<forall>j < n. visited j (entity_pool (snd (visit_loop 0 (nb, k))) ! j)"
    by (auto simp: I_def)
  show ?thesis
  proof (intro allI impI)
    fix j assume "j < active_entity_count (snd (visit_loop 0 (nb, k)))"
    with n v have "visited j (entity_pool (snd (visit_loop 0 (nb, k))) ! j)" by simp
    then show "(gc_due (entity_pool (snd (visit_loop 0 (nb, k))) ! j)
              \<longrightarrow> marked_for_gc (entity_pool (snd (visit_loop 0 (nb, k))) ! j) = 1) \<and>
           (marked_for_gc (entity_pool (snd (visit_loop 0 (nb, k))) ! j) \<noteq> 0
              \<longrightarrow> gc_due (entity_pool (snd (visit_loop 0 (nb, k))) ! j)
                  \<or> (j < active_entity_count k \<and> marked_for_gc (entity_pool k ! j) \<noteq> 0))"
      by (auto simp: visited_def orig_def n0_def split: if_splits)
  qed
qed


section \<open>The phases of the update cycle\<close>

lemma apply_entity_length [simp]: "length (apply_entity nb i pool) = length pool"
  by (simp add: apply_entity_def)

lemma apply_entity_nth:
  "i < length pool \<Longrightarrow>
   apply_entity nb i pool ! j = (if j = i then written nb i (pool ! i) else pool ! j)"
  by (simp add: apply_entity_def written_def)

lemma apply_fold_length [simp]:
  "length (fold (apply_entity nb) [0..<n] pool) = length pool"
  by (induction n) simp_all

lemma apply_fold_nth:
  "n \<le> length pool \<Longrightarrow>
   fold (apply_entity nb) [0..<n] pool ! j = (if j < n then written nb j (pool ! j) else pool ! j)"
proof (induction n arbitrary: j)
  case 0
  then show ?case by simp
next
  case (Suc n)
  then have "fold (apply_entity nb) [0..<n] pool ! j = (if j < n then written nb j (pool ! j) else pool ! j)"
    for j by simp
  with Suc.prems show ?case
    by (simp add: apply_entity_nth less_Suc_eq)
qed

lemma apply_changes_simps [simp]:
  "active_entity_count (apply_changes nb k) = active_entity_count k"
  "holo_system (apply_changes nb k) = holo_system k"
  "length (entity_pool (apply_changes nb k)) = length (entity_pool k)"
  by (simp_all add: apply_changes_def)

lemma apply_changes_nth:
  "arena_ok k \<Longrightarrow>
   entity_pool (apply_changes nb k) ! j =
     (if j < active_entity_count k then written nb j (entity_pool k ! j) else entity_pool k ! j)"
  by (simp add: apply_changes_def apply_fold_nth arena_ok_def)

lemma apply_changes_arena_ok [simp]: "arena_ok (apply_changes nb k) = arena_ok k"
  by (simp add: arena_ok_def)

lemma collect_fold:
  "n \<le> length pool \<Longrightarrow>
   \<exists>p. fold collect_step [0..<n] (0, pool) = (length (filter unmarked (take n pool)), p) \<and>
       take (length (filter unmarked (take n pool))) p = filter unmarked (take n pool) \<and>
       drop n p = drop n pool \<and> length p = length pool"
proof (induction n)
  case 0
  then show ?case by simp
next
  case (Suc n)
  from Suc have n: "n < length pool" by simp
  let ?w = "length (filter unmarked (take n pool))"
  from Suc n obtain p where wp: "fold collect_step [0..<n] (0, pool) = (?w, p)"
    and t: "take ?w p = filter unmarked (take n pool)"
    and d: "drop n p = drop n pool"
    and l: "length p = length pool"
    by auto
  have wn: "?w \<le> n" using length_filter_le [of unmarked "take n pool"] n by simp
  have pn: "p ! n = pool ! n"
    using d n l by (metis Cons_nth_drop_Suc nth_via_drop)
  have tk: "take (Suc n) pool = take n pool @ [pool ! n]"
    using n by (simp add: take_Suc_conv_app_nth)
  have dS: "drop (Suc n) p = drop (Suc n) pool"
    using d by (metis drop_Suc tl_drop)
  have step: "fold collect_step [0..<Suc n] (0, pool) = collect_step n (?w, p)"
    by (simp add: wp)
  show ?case
  proof (cases "unmarked (pool ! n)")
    case False
    then have "collect_step n (?w, p) = (?w, p)"
      by (simp add: collect_step_def Let_def pn unmarked_def)
    with False t dS l show ?thesis
      unfolding step tk by simp
  next
    case True
    let ?q = "p[?w := pool ! n]"
    have same: "p[n := pool ! n] = p"
      using pn by (metis list_update_id)
    have cs: "collect_step n (?w, p) = (Suc ?w, ?q)"
      using True same by (auto simp: collect_step_def Let_def pn unmarked_def)
    have wl: "?w < length p" using wn n l by simp
    have 1: "take (Suc ?w) ?q = filter unmarked (take n pool) @ [pool ! n]"
      using wl t by (simp add: take_Suc_conv_app_nth)
    have 2: "drop (Suc n) ?q = drop (Suc n) pool"
      using wn dS by simp
    from True 1 2 l show ?thesis
      unfolding step tk cs by simp
  qed
qed

lemma collect_garbage_count:
  "arena_ok k \<Longrightarrow> active_entity_count (collect_garbage k)
     = length (filter unmarked (take (active_entity_count k) (entity_pool k)))"
  using collect_fold [of "active_entity_count k" "entity_pool k"]
  by (auto simp: collect_garbage_def Let_def arena_ok_def)

lemma collect_garbage_prefix:
  "arena_ok k \<Longrightarrow> take (active_entity_count (collect_garbage k)) (entity_pool (collect_garbage k))
     = filter unmarked (take (active_entity_count k) (entity_pool k))"
  using collect_fold [of "active_entity_count k" "entity_pool k"]
  by (auto simp: collect_garbage_def Let_def arena_ok_def)

lemma collect_garbage_length:
  "arena_ok k \<Longrightarrow> length (entity_pool (collect_garbage k)) = length (entity_pool k)"
  using collect_fold [of "active_entity_count k" "entity_pool k"]
  by (auto simp: collect_garbage_def Let_def arena_ok_def)

lemma collect_garbage_holo [simp]: "holo_system (collect_garbage k) = holo_system k"
  by (simp add: collect_garbage_def Let_def)

lemma collect_garbage_arena_ok: "arena_ok k \<Longrightarrow> arena_ok (collect_garbage k)"
proof -
  assume ok: "arena_ok k"
  have "length (filter unmarked (take (active_entity_count k) (entity_pool k))) \<le> active_entity_count k"
    using length_filter_le [of unmarked "take (active_entity_count k) (entity_pool k)"] by simp
  with ok show ?thesis
    by (simp add: arena_ok_def collect_garbage_count collect_garbage_length)
qed

lemma update_entities_eq: "update_entities stack k = collect_garbage (evaluated stack k)"
  by (simp add: update_entities_def evaluated_def Let_def)

lemma evaluate_arena:
  "arena_ok k \<Longrightarrow> arena_ok (snd (evaluate_entities stack k)) \<and>
     active_entity_count k \<le> active_entity_count (snd (evaluate_entities stack k))"
  using visit_loop_arena [of "(stack\<lparr>next_active := replicate MAX_ENTITIES 0\<rparr>, k)" 0]
  by (simp add: evaluate_entities_def)

lemma evaluated_arena:
  "arena_ok k \<Longrightarrow> arena_ok (evaluated stack k) \<and>
     active_entity_count k \<le> active_entity_count (evaluated stack k)"
  using evaluate_arena [of k stack] by (simp add: evaluated_def)

lemma update_entities_arena_ok: "arena_ok k \<Longrightarrow> arena_ok (update_entities stack k)"
  by (simp add: update_entities_eq collect_garbage_arena_ok evaluated_arena)

lemma spawn_entity_arena_ok: "arena_ok k \<Longrightarrow> arena_ok (snd (spawn_entity k))"
  by (auto simp: arena_ok_def spawn_entity_count)

lemma run_op_arena_ok: "arena_ok k \<Longrightarrow> arena_ok (run_op op k)"
  by (cases op) (simp_all add: spawn_entity_arena_ok update_entities_arena_ok collect_garbage_arena_ok)

lemma run_ops_arena_ok: "arena_ok k \<Longrightarrow> arena_ok (fold run_op ops k)"
  by (induction ops arbitrary: k) (simp_all add: run_op_arena_ok)

lemma written_keeps [simp]:
  "visit_frame (written nb j e) = (visit_frame e)\<lparr>is_active := next_active nb ! j,
                       state := next_state nb ! j,
                       domain_name := set_name (domain_name e) (next_domain nb ! j),
                       task_vector := next_task_vector nb ! j,
                       path_id := next_path_id nb ! j,
                       task_alignment := next_task_alignment nb ! j\<rparr>"
  "age (written nb j e) = age e"
  "fitness_score (written nb j e) = fitness_score e"
  "marked_for_gc (written nb j e) = marked_for_gc e"
  "frame (written nb j e) = frame e"
  by (simp_all add: written_def visit_frame_def frame_def)

lemma frame_visit_frame:
  assumes "visit_frame e' = visit_frame e"
  shows "frame e' = frame e"
proof -
  have "frame e' = frame (visit_frame e')" by (simp add: frame_def visit_frame_def)
  also have "\<dots> = frame (visit_frame e)" by (simp only: assms)
  also have "\<dots> = frame e" by (simp add: frame_def visit_frame_def)
  finally show ?thesis .
qed

lemma evaluated_nth:
  "arena_ok k \<Longrightarrow> j < active_entity_count (evaluated stack k) \<Longrightarrow>
   entity_pool (evaluated stack k) ! j =
     written (fst (evaluate_entities stack k)) j (entity_pool (snd (evaluate_entities stack k)) ! j)"
  using evaluate_arena [of k stack] by (simp add: evaluated_def apply_changes_nth)

lemma evaluated_frame:
  assumes "arena_ok k" "j < active_entity_count k"
  shows "frame (entity_pool (evaluated stack k) ! j) = frame (entity_pool k ! j)"
proof -
  have "visit_frame (entity_pool (snd (evaluate_entities stack k)) ! j) = visit_frame (entity_pool k ! j)"
    using assms visit_loop_frame [of "(stack\<lparr>next_active := replicate MAX_ENTITIES 0\<rparr>, k)" j 0]
    by (simp add: evaluate_entities_def)
  moreover have "j < active_entity_count (evaluated stack k)"
    using assms evaluated_arena [of k stack] by simp
  ultimately show ?thesis
    using assms frame_visit_frame [of "entity_pool (snd (evaluate_entities stack k)) ! j" "entity_pool k ! j"]
    by (simp add: evaluated_nth)
qed

lemma evaluated_marks:
  assumes "arena_ok k" "j < active_entity_count (evaluated stack k)"
  shows "gc_due (entity_pool (evaluated stack k) ! j) \<Longrightarrow> marked_for_gc (entity_pool (evaluated stack k) ! j) = 1"
    and "marked_for_gc (entity_pool (evaluated stack k) ! j) \<noteq> 0 \<Longrightarrow>
           gc_due (entity_pool (evaluated stack k) ! j)
           \<or> (j < active_entity_count k \<and> marked_for_gc (entity_pool k ! j) \<noteq> 0)"
proof -
  let ?nb = "stack\<lparr>next_active := replicate MAX_ENTITIES 0\<rparr>"
  have j: "j < active_entity_count (snd (visit_loop 0 (?nb, k)))"
    using assms by (simp add: evaluated_def evaluate_entities_def)
  have e: "entity_pool (evaluated stack k) ! j
      = written (fst (visit_loop 0 (?nb, k))) j (entity_pool (snd (visit_loop 0 (?nb, k))) ! j)"
    using evaluated_nth [OF assms] by (simp add: evaluate_entities_def)
  from visit_loop_marks [OF assms(1), of ?nb] j
  have m: "(gc_due (entity_pool (snd (visit_loop 0 (?nb, k))) ! j)
              \<longrightarrow> marked_for_gc (entity_pool (snd (visit_loop 0 (?nb, k))) ! j) = 1) \<and>
           (marked_for_gc (entity_pool (snd (visit_loop 0 (?nb, k))) ! j) \<noteq> 0
              \<longrightarrow> gc_due (entity_pool (snd (visit_loop 0 (?nb, k))) ! j)
                  \<or> (j < active_entity_count k \<and> marked_for_gc (entity_pool k ! j) \<noteq> 0))"
    by blast
  show "gc_due (entity_pool (evaluated stack k) ! j) \<Longrightarrow> marked_for_gc (entity_pool (evaluated stack k) ! j) = 1"
    using m by (simp add: e gc_due_def)
  show "marked_for_gc (entity_pool (evaluated stack k) ! j) \<noteq> 0 \<Longrightarrow>
           gc_due (entity_pool (evaluated stack k) ! j)
           \<or> (j < active_entity_count k \<and> marked_for_gc (entity_pool k ! j) \<noteq> 0)"
    using m by (simp add: e gc_due_def)
qed

lemma update_entities_live:
  "arena_ok k \<Longrightarrow> live (update_entities stack k) = filter unmarked (live (evaluated stack k))"
  by (simp add: live_def update_entities_eq collect_garbage_prefix evaluated_arena)

lemma filter_split_at:
  assumes "i < length xs" "P (xs ! i)"
  shows "filter P xs = filter P (take i xs) @ xs ! i # filter P (drop (Suc i) xs)"
proof -
  have "filter P (take i xs @ xs ! i # drop (Suc i) xs)
      = filter P (take i xs) @ xs ! i # filter P (drop (Suc i) xs)"
    using assms(2) by simp
  moreover have "take i xs @ xs ! i # drop (Suc i) xs = xs"
    using assms(1) by (rule id_take_nth_drop [symmetric])
  ultimately show ?thesis by (simp only:)
qed

lemma filter_nth_position:
  "i < length xs \<Longrightarrow> P (xs ! i) \<Longrightarrow> filter P xs ! length (filter P (take i xs)) = xs ! i"
  by (simp only: filter_split_at [of i xs P] nth_append_length)

lemma filter_position_less:
  "i < length xs \<Longrightarrow> P (xs ! i) \<Longrightarrow> length (filter P (take i xs)) < length (filter P xs)"
  by (simp add: filter_split_at [of i xs P])


section \<open>Prefix, compaction and the collection threshold\<close>

lemma live_arena_of: "length es \<le> MAX_ENTITIES \<Longrightarrow> live (arena_of es) = es"
  by (simp add: live_def arena_of_def)

lemma arena_ok_arena_of: "length es \<le> MAX_ENTITIES \<Longrightarrow> arena_ok (arena_of es)"
  by (simp add: arena_ok_def arena_of_def)

lemma length_live: "arena_ok k \<Longrightarrow> length (live k) = active_entity_count k"
  by (simp add: live_def arena_ok_def)

text \<open>
  Claim C7. A well-formed arena stays well formed under every sequence of spawns, updates and
  compacting passes, so the live entities are always the slots \<open>0\<close> to \<open>active_entity_count - 1\<close>
  of the pool. After a compacting pass, alone or at the end of \<open>update_entities\<close>, those slots
  hold exactly the entities that were live and unmarked before the pass, in their former order.
\<close>

theorem arena_prefix:
  assumes "arena_ok k"
  shows "arena_ok (fold run_op ops k) \<and>
         length (live (fold run_op ops k)) = active_entity_count (fold run_op ops k) \<and>
         live (collect_garbage k) = filter unmarked (live k) \<and>
         live (update_entities stack k) = filter unmarked (live (evaluated stack k))"
proof (intro conjI)
  show ok: "arena_ok (fold run_op ops k)"
    using assms by (rule run_ops_arena_ok)
  show "length (live (fold run_op ops k)) = active_entity_count (fold run_op ops k)"
    using ok by (rule length_live)
  show "live (collect_garbage k) = filter unmarked (live k)"
    using assms by (simp add: live_def collect_garbage_prefix)
  show "live (update_entities stack k) = filter unmarked (live (evaluated stack k))"
    using assms by (rule update_entities_live)
qed

theorem arena_prefix_witness:
  "arena_ok (fold run_op [Spawn, Collect, Spawn]
      (arena_of [sample_entity 0 1 0 0, (sample_entity 1 1 0 0)\<lparr>marked_for_gc := 1\<rparr>, sample_entity 2 1 0 0])) \<and>
   live (collect_garbage
      (arena_of [sample_entity 0 1 0 0, (sample_entity 1 1 0 0)\<lparr>marked_for_gc := 1\<rparr>, sample_entity 2 1 0 0]))
     = [sample_entity 0 1 0 0, sample_entity 2 1 0 0]"
proof -
  let ?es = "[sample_entity 0 1 0 0, (sample_entity 1 1 0 0)\<lparr>marked_for_gc := 1\<rparr>, sample_entity 2 1 0 0]"
  have ok: "arena_ok (arena_of ?es)" by (simp add: arena_ok_arena_of)
  have "filter unmarked (live (arena_of ?es)) = [sample_entity 0 1 0 0, sample_entity 2 1 0 0]"
    by (simp add: live_arena_of unmarked_def sample_entity_def zero_entity_def)
  with arena_prefix [OF ok, of "[Spawn, Collect, Spawn]" zero_stack] show ?thesis
    by simp
qed

lemma k2_eval:
  "map (\<lambda>e. (entity_id e, age e, fitness_score e, marked_for_gc e))
     (live (update_entities zero_stack (arena_of [sample_entity 0 0 1000 49, sample_entity 1 0 1000 50])))
   = [(1, 1001, 50, 0)]"
  by (simp add: update_entities_def evaluate_entities_def visit_loop.simps visit_entity_def
      buffer_entity_def apply_rules_def neighbor_active_def prev_idx_def next_idx_def
      align_task_def gc_mark_def apply_changes_def apply_entity_def collect_garbage_def
      collect_step_def live_def arena_of_def sample_entity_def zero_entity_def zero_stack_def
      zero_vector_def Let_def)

lemma visit_loop_age:
  assumes "arena_ok k"
  shows "\<forall>j < active_entity_count k.
           age (entity_pool (snd (visit_loop 0 (nb, k))) ! j) = age (entity_pool k ! j) + 1"
proof -
  define n0 where "n0 = active_entity_count k"
  define I where "I = (\<lambda>(i :: nat) (x :: next_buffers \<times> kernel).
      arena_ok (snd x) \<and> n0 \<le> active_entity_count (snd x) \<and>
      (\<forall>j < n0. age (entity_pool (snd x) ! j) =
          (if j < i then age (entity_pool k ! j) + 1 else age (entity_pool k ! j))))"
  have "\<exists>n. I n (visit_loop 0 (nb, k)) \<and> active_entity_count (snd (visit_loop 0 (nb, k))) \<le> n"
  proof (rule visit_loop_rule)
    show "I 0 (nb, k)" using assms by (simp add: I_def n0_def)
  next
    fix i x assume a: "I i x" "i < active_entity_count (snd x)"
    obtain nb' k' where x: "x = (nb', k')" by (cases x)
    let ?k = "snd (visit_entity i (nb', k'))"
    from a x have ok: "arena_ok k'" and i: "i < active_entity_count k'"
      and n0: "n0 \<le> active_entity_count k'"
      and ag: "\<forall>j < n0. age (entity_pool k' ! j) =
          (if j < i then age (entity_pool k ! j) + 1 else age (entity_pool k ! j))"
      by (simp_all add: I_def)
    have len: "active_entity_count k' \<le> length (entity_pool k')"
      using ok by (simp add: arena_ok_def)
    have "\<forall>j < n0. age (entity_pool ?k ! j) =
          (if j < Suc i then age (entity_pool k ! j) + 1 else age (entity_pool k ! j))"
    proof (intro allI impI)
      fix j assume j: "j < n0"
      show "age (entity_pool ?k ! j) =
          (if j < Suc i then age (entity_pool k ! j) + 1 else age (entity_pool k ! j))"
      proof (cases "j = i")
        case True
        with j ag visit_entity_age [OF i len, of nb'] show ?thesis by simp
      next
        case False
        with j n0 have "entity_pool ?k ! j = entity_pool k' ! j"
          by (simp add: visit_entity_other)
        with False j ag show ?thesis by (simp add: less_Suc_eq)
      qed
    qed
    with ok n0 show "I (Suc i) (visit_entity i x)"
      by (auto simp: I_def x visit_entity_arena_ok visit_entity_count)
  qed
  then obtain n where n: "active_entity_count (snd (visit_loop 0 (nb, k))) \<le> n"
    and c: "n0 \<le> active_entity_count (snd (visit_loop 0 (nb, k)))"
    and v: "\<forall>j < n0. age (entity_pool (snd (visit_loop 0 (nb, k))) ! j) =
          (if j < n then age (entity_pool k ! j) + 1 else age (entity_pool k ! j))"
    by (auto simp: I_def)
  show ?thesis
  proof (intro allI impI)
    fix j assume j: "j < active_entity_count k"
    with n c have "j < n" by (simp add: n0_def)
    with v j show "age (entity_pool (snd (visit_loop 0 (nb, k))) ! j) = age (entity_pool k ! j) + 1"
      by (simp add: n0_def)
  qed
qed

lemma evaluated_age:
  assumes "arena_ok k" "j < active_entity_count k"
  shows "age (entity_pool (evaluated stack k) ! j) = age (entity_pool k ! j) + 1"
proof -
  have "j < active_entity_count (evaluated stack k)"
    using assms evaluated_arena [of k stack] by simp
  then show ?thesis
    using assms visit_loop_age [OF assms(1), of "stack\<lparr>next_active := replicate MAX_ENTITIES 0\<rparr>"]
    by (simp add: evaluated_nth) (simp add: evaluate_entities_def)
qed

text \<open>
  Claim C6. In one call of \<open>update_entities\<close>, let the arena before the compacting pass be
  \<open>evaluated stack k\<close>; the age and fitness of an entity there are the ones that the marking
  test has read. An entity whose age exceeds 1000 and whose fitness is below 50 is marked and
  is not among the live entities after the pass. An entity that was unmarked before the call
  and fails the test (as one with age 1001 and fitness 50 does) is unmarked and is among the
  live entities after the pass. The age read by the test is the age before the call plus one.
\<close>

theorem gc_threshold:
  assumes "arena_ok k"
  shows "\<forall>j < active_entity_count (evaluated stack k).
           (gc_due (entity_pool (evaluated stack k) ! j) \<longrightarrow>
              marked_for_gc (entity_pool (evaluated stack k) ! j) = 1 \<and>
              entity_pool (evaluated stack k) ! j \<notin> set (live (update_entities stack k))) \<and>
           (j < active_entity_count k \<and> marked_for_gc (entity_pool k ! j) = 0 \<and>
            \<not> gc_due (entity_pool (evaluated stack k) ! j) \<longrightarrow>
              marked_for_gc (entity_pool (evaluated stack k) ! j) = 0 \<and>
              entity_pool (evaluated stack k) ! j \<in> set (live (update_entities stack k))) \<and>
           (j < active_entity_count k \<longrightarrow>
              age (entity_pool (evaluated stack k) ! j) = age (entity_pool k ! j) + 1)"
proof (intro allI impI conjI)
  fix j assume j: "j < active_entity_count (evaluated stack k)"
  let ?e = "entity_pool (evaluated stack k) ! j"
  have l: "live (update_entities stack k) = filter unmarked (live (evaluated stack k))"
    using assms by (rule update_entities_live)
  have ok: "arena_ok (evaluated stack k)" using assms evaluated_arena by simp
  have mem: "?e \<in> set (live (evaluated stack k))"
    using j ok by (auto simp: live_def arena_ok_def in_set_conv_nth)
  {
    assume d: "gc_due ?e"
    show m: "marked_for_gc ?e = 1" using evaluated_marks(1) [OF assms j d] .
    show "?e \<notin> set (live (update_entities stack k))"
      using m by (simp add: l unmarked_def)
  }
  {
    assume a: "j < active_entity_count k \<and> marked_for_gc (entity_pool k ! j) = 0 \<and> \<not> gc_due ?e"
    show m: "marked_for_gc ?e = 0"
      using evaluated_marks(2) [OF assms j] a by auto
    show "?e \<in> set (live (update_entities stack k))"
      using m mem by (simp add: l unmarked_def)
  }
  {
    assume "j < active_entity_count k"
    then show "age ?e = age (entity_pool k ! j) + 1"
      using assms by (simp add: evaluated_age)
  }
qed

lemma k2_evaluated:
  "map (\<lambda>e. (entity_id e, age e, fitness_score e, marked_for_gc e))
     (live (evaluated zero_stack (arena_of [sample_entity 0 0 1000 49, sample_entity 1 0 1000 50])))
   = [(0, 1001, 49, 1), (1, 1001, 50, 0)]"
  by (simp add: evaluated_def evaluate_entities_def visit_loop.simps visit_entity_def
      buffer_entity_def apply_rules_def neighbor_active_def prev_idx_def next_idx_def
      align_task_def gc_mark_def apply_changes_def apply_entity_def
      live_def arena_of_def sample_entity_def zero_entity_def zero_stack_def
      zero_vector_def Let_def)

lemma k2_facts:
  "active_entity_count (evaluated zero_stack (arena_of [sample_entity 0 0 1000 49, sample_entity 1 0 1000 50])) = 2"
  "gc_due (entity_pool (evaluated zero_stack (arena_of [sample_entity 0 0 1000 49, sample_entity 1 0 1000 50])) ! 0)"
  "\<not> gc_due (entity_pool (evaluated zero_stack (arena_of [sample_entity 0 0 1000 49, sample_entity 1 0 1000 50])) ! 1)"
  by (simp_all add: evaluated_def evaluate_entities_def visit_loop.simps visit_entity_def
      buffer_entity_def apply_rules_def neighbor_active_def prev_idx_def next_idx_def
      align_task_def gc_mark_def apply_changes_def apply_entity_def gc_due_def
      arena_of_def sample_entity_def zero_entity_def zero_stack_def
      zero_vector_def Let_def)

theorem gc_threshold_witness:
  "arena_ok (arena_of [sample_entity 0 0 1000 49, sample_entity 1 0 1000 50]) \<and>
   gc_due (entity_pool (evaluated zero_stack (arena_of [sample_entity 0 0 1000 49, sample_entity 1 0 1000 50])) ! 0) \<and>
   marked_for_gc (entity_pool (evaluated zero_stack (arena_of [sample_entity 0 0 1000 49, sample_entity 1 0 1000 50])) ! 0) = 1 \<and>
   entity_pool (evaluated zero_stack (arena_of [sample_entity 0 0 1000 49, sample_entity 1 0 1000 50])) ! 0
     \<notin> set (live (update_entities zero_stack (arena_of [sample_entity 0 0 1000 49, sample_entity 1 0 1000 50]))) \<and>
   entity_pool (evaluated zero_stack (arena_of [sample_entity 0 0 1000 49, sample_entity 1 0 1000 50])) ! 1
     \<in> set (live (update_entities zero_stack (arena_of [sample_entity 0 0 1000 49, sample_entity 1 0 1000 50]))) \<and>
   map (\<lambda>e. (entity_id e, age e, fitness_score e, marked_for_gc e))
     (live (update_entities zero_stack (arena_of [sample_entity 0 0 1000 49, sample_entity 1 0 1000 50])))
     = [(1, 1001, 50, 0)]"
proof -
  let ?k = "arena_of [sample_entity 0 0 1000 49, sample_entity 1 0 1000 50]"
  have ok: "arena_ok ?k" by (simp add: arena_ok_arena_of)
  have m1: "marked_for_gc (entity_pool ?k ! 1) = 0"
    by (simp add: arena_of_def sample_entity_def zero_entity_def)
  have c: "active_entity_count ?k = 2" by (simp add: arena_of_def)
  from gc_threshold [OF ok, of zero_stack, THEN spec, of 0] k2_facts
  have 0: "marked_for_gc (entity_pool (evaluated zero_stack ?k) ! 0) = 1 \<and>
        entity_pool (evaluated zero_stack ?k) ! 0 \<notin> set (live (update_entities zero_stack ?k))"
    by simp
  from gc_threshold [OF ok, of zero_stack, THEN spec, of 1] k2_facts m1 c
  have 1: "entity_pool (evaluated zero_stack ?k) ! 1 \<in> set (live (update_entities zero_stack ?k))"
    by simp
  from ok 0 1 k2_facts(2) k2_eval show ?thesis by simp
qed


section \<open>Frame of a cycle and the spawn rule\<close>

lemma survivor_position:
  assumes ok: "arena_ok k" and i: "i < active_entity_count (evaluated stack k)"
    and u: "unmarked (entity_pool (evaluated stack k) ! i)"
  shows "new_index (evaluated stack k) i < active_entity_count (update_entities stack k)"
    and "entity_pool (update_entities stack k) ! new_index (evaluated stack k) i
           = entity_pool (evaluated stack k) ! i"
proof -
  let ?m = "evaluated stack k"
  have okm: "arena_ok ?m" using ok evaluated_arena by simp
  have il: "i < length (live ?m)" using i okm by (simp add: length_live)
  have nth: "live ?m ! i = entity_pool ?m ! i" using i by (simp add: live_def)
  have tk: "take i (live ?m) = take i (entity_pool ?m)"
    using i by (simp add: live_def min_def)
  have l: "live (update_entities stack k) = filter unmarked (live ?m)"
    using ok by (rule update_entities_live)
  have cnt: "active_entity_count (update_entities stack k) = length (filter unmarked (live ?m))"
    using okm by (simp add: update_entities_eq collect_garbage_count live_def)
  show w: "new_index ?m i < active_entity_count (update_entities stack k)"
    using filter_position_less [OF il, of unmarked] u
    by (simp add: cnt new_index_def nth tk)
  have "filter unmarked (live ?m) ! new_index ?m i = entity_pool ?m ! i"
    using filter_nth_position [OF il, of unmarked] u by (simp add: new_index_def nth tk)
  moreover have "live (update_entities stack k) ! new_index ?m i
      = entity_pool (update_entities stack k) ! new_index ?m i"
    using w by (simp add: live_def)
  ultimately show "entity_pool (update_entities stack k) ! new_index ?m i = entity_pool ?m ! i"
    by (simp add: l)
qed

text \<open>
  Claim C10. An entity at index \<open>i\<close> before \<open>update_entities\<close> that is unmarked when the
  compacting pass starts is alive after the call, at the index to which the pass moves it, and
  its id, genome pointer, confidence, resource allocation, specialization scores and mutant flag
  are the ones it had before the call.
\<close>

theorem update_entities_frame:
  assumes "arena_ok k" and "i < active_entity_count k"
    and "marked_for_gc (entity_pool (evaluated stack k) ! i) = 0"
  shows "new_index (evaluated stack k) i < active_entity_count (update_entities stack k) \<and>
         frame (entity_pool (update_entities stack k) ! new_index (evaluated stack k) i)
           = frame (entity_pool k ! i)"
proof -
  have i: "i < active_entity_count (evaluated stack k)"
    using assms evaluated_arena [of k stack] by simp
  have u: "unmarked (entity_pool (evaluated stack k) ! i)"
    using assms by (simp add: unmarked_def)
  from survivor_position [OF assms(1) i u] evaluated_frame [OF assms(1,2), of stack]
  show ?thesis by simp
qed

theorem update_entities_frame_witness:
  "new_index (evaluated zero_stack (arena_of [sample_entity 0 0 1000 49, sample_entity 1 0 1000 50])) 1 = 0 \<and>
   0 < active_entity_count (update_entities zero_stack (arena_of [sample_entity 0 0 1000 49, sample_entity 1 0 1000 50])) \<and>
   frame (entity_pool (update_entities zero_stack (arena_of [sample_entity 0 0 1000 49, sample_entity 1 0 1000 50])) ! 0)
     = frame (sample_entity 1 0 1000 50)"
proof -
  let ?k = "arena_of [sample_entity 0 0 1000 49, sample_entity 1 0 1000 50]"
  have ok: "arena_ok ?k" by (simp add: arena_ok_arena_of)
  have i: "1 < active_entity_count ?k" by (simp add: arena_of_def)
  have ev: "marked_for_gc (entity_pool (evaluated zero_stack ?k) ! 1) = 0"
      "new_index (evaluated zero_stack ?k) 1 = 0"
    by (simp_all add: new_index_def unmarked_def evaluated_def evaluate_entities_def visit_loop.simps
      visit_entity_def buffer_entity_def apply_rules_def neighbor_active_def prev_idx_def next_idx_def
      align_task_def gc_mark_def apply_changes_def apply_entity_def
      arena_of_def sample_entity_def zero_entity_def zero_stack_def zero_vector_def Let_def)
  have e: "entity_pool ?k ! 1 = sample_entity 1 0 1000 50" by (simp add: arena_of_def)
  from update_entities_frame [OF ok i ev(1)] ev(2) e show ?thesis by simp
qed

text \<open>
  Claim C9. Under the guard of the spawn rule, \<open>active_entity_count < MAX_ENTITIES - 1\<close>,
  the capacity test of \<open>spawn_entity\<close> is false and the call returns the new slot; the null
  branch is taken exactly when the pool is full. So the spawn rule of the update cycle always
  gets a child and runs the body of \<^verbatim>\<open>if (child)\<close>.
\<close>

theorem spawn_in_update_succeeds:
  assumes "is_active (entity_pool k ! i) \<noteq> 0" and "2 \<le> neighbor_active k i"
    and "active_entity_count k < MAX_ENTITIES - 1"
  shows "\<not> MAX_ENTITIES \<le> active_entity_count k \<and>
         fst (spawn_entity k) = Some (active_entity_count k) \<and>
         (fst (spawn_entity k') = None) = (MAX_ENTITIES \<le> active_entity_count k') \<and>
         apply_rules i (nb, k) = (nb, mutate_child i (active_entity_count k) (snd (spawn_entity k)))"
proof -
  have "(fst (spawn_entity k') = None) = (MAX_ENTITIES \<le> active_entity_count k')"
    by (simp add: spawn_entity_def Let_def)
  moreover have "fst (spawn_entity k) = Some (active_entity_count k)"
    using assms by (simp add: spawn_entity_fst)
  moreover have "apply_rules i (nb, k) = (nb, mutate_child i (active_entity_count k) (snd (spawn_entity k)))"
    using assms by (simp add: apply_rules_eq)
  ultimately show ?thesis using assms by simp
qed

lemma three_active_spawns:
  "spawns (arena_of [sample_entity 0 1 0 0, sample_entity 1 1 0 0, sample_entity 2 1 0 0]) 1"
  by (simp add: spawns_def neighbor_active_def prev_idx_def next_idx_def arena_of_def
      sample_entity_def zero_entity_def)

theorem spawn_in_update_succeeds_witness:
  "fst (spawn_entity (arena_of [sample_entity 0 1 0 0, sample_entity 1 1 0 0, sample_entity 2 1 0 0])) = Some 3 \<and>
   active_entity_count (snd (apply_rules 1
      (zero_stack, arena_of [sample_entity 0 1 0 0, sample_entity 1 1 0 0, sample_entity 2 1 0 0]))) = 4"
proof -
  let ?k = "arena_of [sample_entity 0 1 0 0, sample_entity 1 1 0 0, sample_entity 2 1 0 0]"
  have c: "active_entity_count ?k = 3" by (simp add: arena_of_def)
  from three_active_spawns
  have g: "is_active (entity_pool ?k ! 1) \<noteq> 0" "2 \<le> neighbor_active ?k 1"
    "active_entity_count ?k < MAX_ENTITIES - 1"
    by (simp_all add: spawns_def)
  from spawn_in_update_succeeds [OF g, of ?k zero_stack] c show ?thesis
    by (simp add: spawn_entity_count)
qed

text \<open>
  Claim C3, as amended. The rule step of entity \<open>i\<close> appends a child (and then the arena is
  the one left by \<open>spawn_entity\<close> and the mutation of the child) exactly when the activate
  and sleep rules do not match, the entity is active, at least two of its neighbours are
  active and \<open>active_entity_count < MAX_ENTITIES - 1\<close>, that is below 31: the guard asks for
  two free slots. Otherwise the count is unchanged.
\<close>

theorem spawn_rule_condition:
  "(active_entity_count (snd (apply_rules i (nb, k))) = active_entity_count k + 1)
     = (\<not> activate_rule k i \<and> \<not> sleep_rule k i \<and> is_active (entity_pool k ! i) \<noteq> 0
        \<and> 2 \<le> neighbor_active k i \<and> active_entity_count k < MAX_ENTITIES - 1) \<and>
   (if \<not> activate_rule k i \<and> \<not> sleep_rule k i \<and> is_active (entity_pool k ! i) \<noteq> 0
        \<and> 2 \<le> neighbor_active k i \<and> active_entity_count k < MAX_ENTITIES - 1
    then snd (apply_rules i (nb, k)) = mutate_child i (active_entity_count k) (snd (spawn_entity k))
    else active_entity_count (snd (apply_rules i (nb, k))) = active_entity_count k)"
  by (auto simp: apply_rules_count_pair apply_rules_child activate_rule_def sleep_rule_def)

text \<open>
  With 31 live entities, all active, the arena has a free slot and entity 1 has two active
  neighbours, yet its rule step leaves the count at 31.
\<close>

theorem spawn_rule_counterexample:
  "\<not> ((active_entity_count (snd (apply_rules 1 (zero_stack, arena_of (replicate 31 (sample_entity 0 1 0 0)))))
          = active_entity_count (arena_of (replicate 31 (sample_entity 0 1 0 0))) + 1)
      = (\<not> activate_rule (arena_of (replicate 31 (sample_entity 0 1 0 0))) 1
         \<and> \<not> sleep_rule (arena_of (replicate 31 (sample_entity 0 1 0 0))) 1
         \<and> is_active (entity_pool (arena_of (replicate 31 (sample_entity 0 1 0 0))) ! 1) \<noteq> 0
         \<and> 2 \<le> neighbor_active (arena_of (replicate 31 (sample_entity 0 1 0 0))) 1
         \<and> active_entity_count (arena_of (replicate 31 (sample_entity 0 1 0 0))) < MAX_ENTITIES))"
  by (simp add: apply_rules_count_pair activate_rule_def sleep_rule_def neighbor_active_def
      prev_idx_def next_idx_def arena_of_def sample_entity_def zero_entity_def nth_append)

section \<open>Mutation of a spawned child\<close>

lemma f32_neg_differs: "f32_neg x \<noteq> x"
proof
  assume "f32_neg x = x"
  then have "x XOR (x XOR 0x80000000) = x XOR x" by (simp add: f32_neg_def)
  then show False by (simp add: xor.assoc [symmetric])
qed

lemma f32_neg_is_zero: "f32_is_zero (f32_neg x) = f32_is_zero x"
proof -
  have "(x XOR 0x80000000) AND 0x7FFFFFFF = x AND 0x7FFFFFFF"
    by (simp add: bit.conj_xor_distrib2)
  then show ?thesis by (simp add: f32_is_zero_def f32_neg_def)
qed

lemma f32_neg_man: "f32_man (f32_neg x) = f32_man x"
proof -
  have "(x XOR 0x80000000) AND 0x7FFFFF = x AND 0x7FFFFF"
    by (simp add: bit.conj_xor_distrib2)
  then show ?thesis by (simp add: f32_man_def f32_neg_def)
qed

lemma f32_neg_exp: "f32_exp (f32_neg x) = f32_exp x"
proof -
  have "drop_bit 23 (0x80000000 :: 32 word) = 256"
    by (simp add: drop_bit_eq_div)
  then have "drop_bit 23 (x XOR 0x80000000) AND 0xFF = drop_bit 23 x AND (0xFF :: 32 word)"
    by (simp add: bit.conj_xor_distrib2 del: drop_bit_eq_div)
  then show ?thesis by (simp add: f32_exp_def f32_neg_def del: drop_bit_eq_div)
qed

lemma f32_neg_is_nan: "f32_is_nan (f32_neg x) = f32_is_nan x"
  by (simp add: f32_is_nan_def f32_neg_exp f32_neg_man)

lemma f32_zero_not_nan: "f32_is_zero x \<Longrightarrow> \<not> f32_is_nan x"
proof -
  assume "f32_is_zero x"
  then have z: "unat x mod 2 ^ 31 = 0" by (simp add: f32_is_zero_unat)
  have "unat x mod 2 ^ 31 mod 2 ^ 23 = unat x mod 2 ^ 23"
    by (rule mod_mod_cancel) (simp add: le_imp_power_dvd)
  with z have "f32_man x = 0" by (simp add: f32_man_unat)
  then show ?thesis by (simp add: f32_is_nan_def)
qed

text \<open>
  A negated value compares equal to the original exactly when the original is a zero:
  \<^verbatim>\<open>-0.0f == 0.0f\<close> holds, and a NaN compares unequal to everything.
\<close>

lemma f32_eq_neg: "f32_eq (f32_neg x) x = f32_is_zero x"
  using f32_neg_differs [of x] f32_zero_not_nan [of x]
  by (auto simp: f32_eq_def f32_neg_is_nan f32_neg_is_zero)

lemma f32_eq_same: "f32_eq x x = (\<not> f32_is_nan x)"
  by (simp add: f32_eq_def)

lemma filter_upt_single:
  "filter (\<lambda>d. d = a) [0..<n] = (if a < n then [a] else [])"
  by (induction n) auto

lemma filter_upt_only:
  assumes "a < n" and "\<forall>d<n. P d = (d = a)"
  shows "filter P [0..<n] = [a]"
proof -
  have "filter P [0..<n] = filter (\<lambda>d. d = a) [0..<n]"
    using assms(2) by (intro filter_cong) auto
  then show ?thesis using assms(1) by (simp add: filter_upt_single)
qed

lemma filter_upt_none:
  assumes "\<forall>d<n. \<not> P d"
  shows "filter P [0..<n] = []"
  using assms by (simp add: filter_empty_conv)

lemma visit_frame_state: "state (visit_frame e) = state e"
  by (simp add: visit_frame_def)

lemma aged_state:
  "state (entity_pool (aged i k) ! j) = state (entity_pool k ! j)"
  by (cases "j = i"; cases "i < length (entity_pool k)") (simp_all add: aged_def list_update_beyond)

lemma visit_entity_holo:
  "spawns k i \<Longrightarrow> holo_system (snd (visit_entity i (nb, k))) = holo_system (snd (spawn_entity (aged i k)))"
  using apply_rules_child [of "aged i k" i "buffer_entity i (entity_pool k ! i) nb"]
  by (simp add: visit_entity_eq spawns_def)

text \<open>
  The visit of an entity that spawns: the child is in slot \<open>active_entity_count\<close>, its state
  data are the parent's with the component at index \<open>mutation_tick k mod 512\<close> replaced by
  its negation, and the parent's state is not written.
\<close>

lemma visit_entity_spawned:
  assumes ok: "arena_ok k" and i: "i < active_entity_count k" and sp: "spawns k i"
  shows "active_entity_count (snd (visit_entity i (nb, k))) = active_entity_count k + 1"
    and "global_timestamp (holo_system (snd (visit_entity i (nb, k)))) = mutation_tick k"
    and "data (state (entity_pool (snd (visit_entity i (nb, k))) ! active_entity_count k))
      = (data (state (entity_pool k ! i)))
          [unat (mutation_tick k) mod HOLOGRAPHIC_DIMENSIONS
             := f32_neg (data (state (entity_pool k ! i)) !
                  (unat (mutation_tick k) mod HOLOGRAPHIC_DIMENSIONS))]"
    and "state (entity_pool (snd (visit_entity i (nb, k))) ! i) = state (entity_pool k ! i)"
proof -
  let ?k' = "snd (visit_entity i (nb, k))"
  let ?c = "active_entity_count k"
  let ?s = "snd (spawn_entity (aged i k))"
  let ?t = "unat (global_timestamp (holo_system ?k')) mod HOLOGRAPHIC_DIMENSIONS"
  let ?p = "data (state (entity_pool k ! i))"
  have pl: "length (entity_pool k) = MAX_ENTITIES" and cl: "?c \<le> MAX_ENTITIES"
    using ok by (simp_all add: arena_ok_def)
  have c32: "?c < MAX_ENTITIES" and ic: "i \<noteq> ?c" using sp i by (simp_all add: spawns_def)
  have cs: "?c < length (entity_pool ?s)" using c32 pl by simp
  have par: "entity_pool ?s ! i = entity_pool (aged i k) ! i"
    using ic spawn_entity_other [of i "aged i k"] by simp
  have h: "holo_system ?k' = holo_system ?s" using sp by (rule visit_entity_holo)
  show 1: "active_entity_count ?k' = ?c + 1" using sp by (simp add: visit_entity_count)
  show 5: "global_timestamp (holo_system ?k') = mutation_tick k"
    using c32 by (simp add: h spawn_entity_timestamp mutation_tick_def)
  have "data (state (entity_pool ?k' ! ?c)) = ?p[?t := f32_neg (?p ! ?t)]"
    by (simp add: visit_entity_child [OF sp i pl] mutate_child_child [OF ic cs] par aged_state h)
  then show "data (state (entity_pool ?k' ! ?c))
      = ?p[unat (mutation_tick k) mod HOLOGRAPHIC_DIMENSIONS
             := f32_neg (?p ! (unat (mutation_tick k) mod HOLOGRAPHIC_DIMENSIONS))]"
    by (simp only: 5)
  have "visit_frame (entity_pool ?k' ! i) = visit_frame (entity_pool k ! i)"
    using i cl pl by (simp add: visit_entity_frame)
  then show "state (entity_pool ?k' ! i) = state (entity_pool k ! i)"
    using visit_frame_state [of "entity_pool ?k' ! i"] visit_frame_state [of "entity_pool k ! i"]
    by simp
qed

text \<open>
  Claim C5, as amended. When the visit of entity \<open>i\<close> spawns a child, the child is in slot
  \<open>active_entity_count\<close> and the parent's state is unchanged. Let \<open>t\<close> be the tick counter that
  the mutation statement reads (\<open>mutation_tick\<close>): the counter at the start of the visit when
  the genome record is found in the store, and one more otherwise, because \<open>spawn_entity\<close> has
  then stored the record; it is the counter after the visit. The child's state data are the
  parent's with the component at index \<open>t mod 512\<close> replaced by its negation (the sign bit
  flipped), every other component being the parent's bit for bit. As floats (\<^verbatim>\<open>==\<close>), the
  component at \<open>t mod 512\<close> equals the parent's exactly when the parent's is a zero, and any
  other component equals the parent's exactly when it is not a NaN. So child and parent
  differ in dimension \<open>t mod 512\<close> only when the parent's value there is not zero, and in no
  dimension when it is zero.
\<close>

theorem mutation_flips_one_sign:
  assumes ok: "arena_ok k" and i: "i < active_entity_count k" and sp: "spawns k i"
    and len: "length (data (state (entity_pool k ! i))) = HOLOGRAPHIC_DIMENSIONS"
  shows "active_entity_count (snd (visit_entity i (nb, k))) = active_entity_count k + 1 \<and>
    global_timestamp (holo_system (snd (visit_entity i (nb, k)))) = mutation_tick k \<and>
    state (entity_pool (snd (visit_entity i (nb, k))) ! i) = state (entity_pool k ! i) \<and>
    data (state (entity_pool (snd (visit_entity i (nb, k))) ! active_entity_count k))
      = (data (state (entity_pool k ! i)))
          [unat (mutation_tick k) mod HOLOGRAPHIC_DIMENSIONS
             := f32_neg (data (state (entity_pool k ! i)) !
                  (unat (mutation_tick k) mod HOLOGRAPHIC_DIMENSIONS))] \<and>
    (\<forall>d < HOLOGRAPHIC_DIMENSIONS.
       data (state (entity_pool (snd (visit_entity i (nb, k))) ! active_entity_count k)) ! d
         = (if d = unat (mutation_tick k) mod HOLOGRAPHIC_DIMENSIONS
            then f32_neg (data (state (entity_pool k ! i)) ! d)
            else data (state (entity_pool k ! i)) ! d)) \<and>
    (\<forall>d < HOLOGRAPHIC_DIMENSIONS.
       f32_eq (data (state (entity_pool (snd (visit_entity i (nb, k))) ! active_entity_count k)) ! d)
              (data (state (entity_pool k ! i)) ! d)
         = (if d = unat (mutation_tick k) mod HOLOGRAPHIC_DIMENSIONS
            then f32_is_zero (data (state (entity_pool k ! i)) ! d)
            else \<not> f32_is_nan (data (state (entity_pool k ! i)) ! d)))"
proof -
  let ?k' = "snd (visit_entity i (nb, k))"
  let ?c = "active_entity_count k"
  let ?t = "unat (mutation_tick k) mod HOLOGRAPHIC_DIMENSIONS"
  let ?p = "data (state (entity_pool k ! i))"
  note s = visit_entity_spawned [OF ok i sp, of nb]
  have 4: "\<forall>d < HOLOGRAPHIC_DIMENSIONS.
       data (state (entity_pool ?k' ! ?c)) ! d = (if d = ?t then f32_neg (?p ! d) else ?p ! d)"
    unfolding s(3) using len by (simp add: nth_list_update)
  have 5: "\<forall>d < HOLOGRAPHIC_DIMENSIONS.
       f32_eq (data (state (entity_pool ?k' ! ?c)) ! d) (?p ! d)
         = (if d = ?t then f32_is_zero (?p ! d) else \<not> f32_is_nan (?p ! d))"
    using 4 by (simp add: f32_eq_neg f32_eq_same)
  from s 4 5 show ?thesis by blast
qed

lemma unit_arena_facts:
  "arena_ok (arena_of [unit_entity 0, unit_entity 1, unit_entity 2])"
  "active_entity_count (arena_of [unit_entity 0, unit_entity 1, unit_entity 2]) = 3"
  "spawns (arena_of [unit_entity 0, unit_entity 1, unit_entity 2]) 1"
  "data (state (entity_pool (arena_of [unit_entity 0, unit_entity 1, unit_entity 2]) ! 1))
     = replicate HOLOGRAPHIC_DIMENSIONS f32_1_0"
  "mutation_tick (arena_of [unit_entity 0, unit_entity 1, unit_entity 2]) = 1"
  by (simp add: arena_ok_arena_of)
     (simp_all add: arena_of_def unit_entity_def sample_entity_def zero_entity_def zero_vector_def
      zero_store_def retrieve_holographic_memory_def mutation_tick_def spawns_def
      neighbor_active_def prev_idx_def next_idx_def)

lemma f32_neg_1_0: "f32_neg f32_1_0 = 0xBF800000" "\<not> f32_is_zero f32_1_0" "\<not> f32_is_nan f32_1_0"
  by (simp_all add: f32_neg_def f32_1_0_def f32_is_zero_def f32_is_nan_def f32_exp_unat)

theorem mutation_flips_one_sign_witness:
  "active_entity_count (snd (visit_entity 1
      (zero_stack, arena_of [unit_entity 0, unit_entity 1, unit_entity 2]))) = 4 \<and>
   data (state (entity_pool (snd (visit_entity 1
      (zero_stack, arena_of [unit_entity 0, unit_entity 1, unit_entity 2]))) ! 3))
     = (replicate HOLOGRAPHIC_DIMENSIONS f32_1_0)[1 := 0xBF800000] \<and>
   filter (\<lambda>d. \<not> f32_eq
       (data (state (entity_pool (snd (visit_entity 1
          (zero_stack, arena_of [unit_entity 0, unit_entity 1, unit_entity 2]))) ! 3)) ! d)
       (data (state (entity_pool (arena_of [unit_entity 0, unit_entity 1, unit_entity 2]) ! 1)) ! d))
     [0..<HOLOGRAPHIC_DIMENSIONS] = [1]"
proof -
  let ?k = "arena_of [unit_entity 0, unit_entity 1, unit_entity 2]"
  let ?k' = "snd (visit_entity 1 (zero_stack, ?k))"
  have i: "1 < active_entity_count ?k" using unit_arena_facts(2) by simp
  have len: "length (data (state (entity_pool ?k ! 1))) = HOLOGRAPHIC_DIMENSIONS"
    using unit_arena_facts(4) by simp
  note t = mutation_flips_one_sign [OF unit_arena_facts(1) i unit_arena_facts(3) len, of zero_stack,
      unfolded unit_arena_facts(2,4,5)]
  have a: "active_entity_count ?k' = 4" using t by simp
  have b: "data (state (entity_pool ?k' ! 3)) = (replicate HOLOGRAPHIC_DIMENSIONS f32_1_0)[1 := 0xBF800000]"
    using t by (simp add: f32_neg_1_0)
  have "\<forall>d < HOLOGRAPHIC_DIMENSIONS.
      (\<not> f32_eq (data (state (entity_pool ?k' ! 3)) ! d) (replicate HOLOGRAPHIC_DIMENSIONS f32_1_0 ! d)) = (d = 1)"
    unfolding b
    by (simp add: nth_list_update f32_eq_def f32_1_0_def f32_is_nan_def f32_is_zero_def f32_exp_unat)
  then have c: "filter (\<lambda>d. \<not> f32_eq (data (state (entity_pool ?k' ! 3)) ! d)
       (data (state (entity_pool ?k ! 1)) ! d)) [0..<HOLOGRAPHIC_DIMENSIONS] = [1]"
    unfolding unit_arena_facts(4) by (intro filter_upt_only) simp_all
  from a b c show ?thesis by simp
qed

lemma three_active_facts:
  "arena_ok (arena_of [sample_entity 0 1 0 0, sample_entity 1 1 0 0, sample_entity 2 1 0 0])"
  "active_entity_count (arena_of [sample_entity 0 1 0 0, sample_entity 1 1 0 0, sample_entity 2 1 0 0]) = 3"
  "data (state (entity_pool (arena_of [sample_entity 0 1 0 0, sample_entity 1 1 0 0, sample_entity 2 1 0 0]) ! 1))
     = replicate HOLOGRAPHIC_DIMENSIONS 0"
  "global_timestamp (holo_system (arena_of [sample_entity 0 1 0 0, sample_entity 1 1 0 0, sample_entity 2 1 0 0])) = 0"
  "mutation_tick (arena_of [sample_entity 0 1 0 0, sample_entity 1 1 0 0, sample_entity 2 1 0 0]) = 1"
  by (simp add: arena_ok_arena_of)
     (simp_all add: arena_of_def sample_entity_def zero_entity_def zero_vector_def
      zero_store_def retrieve_holographic_memory_def mutation_tick_def)

text \<open>
  The claim as written fails on an arena of three active entities whose states are the zero
  vector, with an empty store and the tick counter at 0, when entity 1 is visited: the spawn
  rule fires while the counter is 0, but \<open>spawn_entity\<close> stores the genome record before the
  mutation reads the counter, so the sign is flipped at index 1 and not at index 0; and the
  flipped component is \<open>-0.0\<close>, which compares equal to the parent's \<open>0.0\<close>, so child and
  parent differ in no dimension.
\<close>

theorem mutation_counterexample:
  "spawns (arena_of [sample_entity 0 1 0 0, sample_entity 1 1 0 0, sample_entity 2 1 0 0]) 1 \<and>
   unat (global_timestamp (holo_system
      (arena_of [sample_entity 0 1 0 0, sample_entity 1 1 0 0, sample_entity 2 1 0 0])))
     mod HOLOGRAPHIC_DIMENSIONS = 0 \<and>
   active_entity_count (snd (visit_entity 1
      (zero_stack, arena_of [sample_entity 0 1 0 0, sample_entity 1 1 0 0, sample_entity 2 1 0 0]))) = 4 \<and>
   filter (\<lambda>d.
       data (state (entity_pool (snd (visit_entity 1
          (zero_stack, arena_of [sample_entity 0 1 0 0, sample_entity 1 1 0 0, sample_entity 2 1 0 0]))) ! 3)) ! d
       \<noteq> data (state (entity_pool
          (arena_of [sample_entity 0 1 0 0, sample_entity 1 1 0 0, sample_entity 2 1 0 0]) ! 1)) ! d)
     [0..<HOLOGRAPHIC_DIMENSIONS] = [1] \<and>
   filter (\<lambda>d. \<not> f32_eq
       (data (state (entity_pool (snd (visit_entity 1
          (zero_stack, arena_of [sample_entity 0 1 0 0, sample_entity 1 1 0 0, sample_entity 2 1 0 0]))) ! 3)) ! d)
       (data (state (entity_pool
          (arena_of [sample_entity 0 1 0 0, sample_entity 1 1 0 0, sample_entity 2 1 0 0]) ! 1)) ! d))
     [0..<HOLOGRAPHIC_DIMENSIONS] = []"
proof -
  let ?k = "arena_of [sample_entity 0 1 0 0, sample_entity 1 1 0 0, sample_entity 2 1 0 0]"
  let ?k' = "snd (visit_entity 1 (zero_stack, ?k))"
  have i: "1 < active_entity_count ?k" using three_active_facts(2) by simp
  note s = visit_entity_spawned [OF three_active_facts(1) i three_active_spawns, of zero_stack]
  have a: "active_entity_count ?k' = 4" using s(1) three_active_facts(2) by simp
  have b: "data (state (entity_pool ?k' ! 3)) = (replicate HOLOGRAPHIC_DIMENSIONS 0)[1 := 0x80000000]"
    using s(3) three_active_facts(2,3,5) by (simp add: f32_neg_def)
  have p: "data (state (entity_pool ?k ! 1)) = replicate HOLOGRAPHIC_DIMENSIONS 0"
    by (rule three_active_facts(3))
  have "\<forall>d < HOLOGRAPHIC_DIMENSIONS.
      (data (state (entity_pool ?k' ! 3)) ! d \<noteq> data (state (entity_pool ?k ! 1)) ! d) = (d = 1)"
    unfolding b p by (simp add: nth_list_update)
  then have c: "filter (\<lambda>d. data (state (entity_pool ?k' ! 3)) ! d \<noteq> data (state (entity_pool ?k ! 1)) ! d)
       [0..<HOLOGRAPHIC_DIMENSIONS] = [1]"
    by (intro filter_upt_only) simp_all
  have "\<forall>d < HOLOGRAPHIC_DIMENSIONS.
      \<not> \<not> f32_eq (data (state (entity_pool ?k' ! 3)) ! d) (data (state (entity_pool ?k ! 1)) ! d)"
    unfolding b p
    by (simp add: nth_list_update f32_eq_def f32_is_zero_def f32_is_nan_def f32_exp_unat)
  then have d: "filter (\<lambda>d. \<not> f32_eq (data (state (entity_pool ?k' ! 3)) ! d)
       (data (state (entity_pool ?k ! 1)) ! d)) [0..<HOLOGRAPHIC_DIMENSIONS] = []"
    by (rule filter_upt_none)
  from three_active_spawns three_active_facts(4) a c d show ?thesis by simp
qed


section \<open>Entity ids\<close>

lemma ids_are_indices_iff:
  "arena_ok k \<Longrightarrow>
   ids_are_indices k = (\<forall>j < active_entity_count k. entity_id (entity_pool k ! j) = of_nat j)"
  by (auto simp: ids_are_indices_def live_def arena_ok_def list_eq_iff_nth_eq)

lemma entity_id_visit_frame: "entity_id (visit_frame e) = entity_id e"
  by (simp add: visit_frame_def)

lemma entity_id_frame: "frame e' = frame e \<Longrightarrow> entity_id e' = entity_id e"
  by (simp add: frame_def)

lemma visit_loop_ids:
  assumes "arena_ok k" "\<forall>j < active_entity_count k. entity_id (entity_pool k ! j) = of_nat j"
  shows "\<forall>j < active_entity_count (snd (visit_loop 0 (nb, k))).
           entity_id (entity_pool (snd (visit_loop 0 (nb, k))) ! j) = of_nat j"
proof -
  define I where "I = (\<lambda>(i :: nat) (x :: next_buffers \<times> kernel).
      arena_ok (snd x) \<and>
      (\<forall>j < active_entity_count (snd x). entity_id (entity_pool (snd x) ! j) = of_nat j))"
  have "\<exists>n. I n (visit_loop 0 (nb, k)) \<and> active_entity_count (snd (visit_loop 0 (nb, k))) \<le> n"
  proof (rule visit_loop_rule)
    show "I 0 (nb, k)" using assms by (simp add: I_def)
  next
    fix i x assume a: "I i x" "i < active_entity_count (snd x)"
    obtain nb' k' where x: "x = (nb', k')" by (cases x)
    let ?k = "snd (visit_entity i (nb', k'))"
    from a x have ok: "arena_ok k'" and i: "i < active_entity_count k'"
      and ids: "\<forall>j < active_entity_count k'. entity_id (entity_pool k' ! j) = of_nat j"
      by (simp_all add: I_def)
    have len: "active_entity_count k' \<le> length (entity_pool k')" "length (entity_pool k') = MAX_ENTITIES"
      using ok by (simp_all add: arena_ok_def)
    have "\<forall>j < active_entity_count ?k. entity_id (entity_pool ?k ! j) = of_nat j"
    proof (intro allI impI)
      fix j assume j: "j < active_entity_count ?k"
      then have "j < active_entity_count k' \<or> (j = active_entity_count k' \<and> spawns k' i)"
        by (auto simp: visit_entity_count split: if_splits)
      then show "entity_id (entity_pool ?k ! j) = of_nat j"
      proof
        assume jl: "j < active_entity_count k'"
        show ?thesis
        proof (cases "j = i")
          case True
          have "entity_id (entity_pool ?k ! i) = entity_id (visit_frame (entity_pool ?k ! i))"
            by (simp add: entity_id_visit_frame)
          also have "\<dots> = entity_id (visit_frame (entity_pool k' ! i))"
            using i len by (simp add: visit_entity_frame)
          finally show ?thesis using True ids i by (simp add: entity_id_visit_frame)
        next
          case False
          with jl ids show ?thesis by (simp add: visit_entity_other)
        qed
      next
        assume c: "j = active_entity_count k' \<and> spawns k' i"
        then show ?thesis
          using visit_entity_child_fields(1) [OF _ i len(2), of nb'] by simp
      qed
    qed
    with ok show "I (Suc i) (visit_entity i x)"
      by (simp add: I_def x visit_entity_arena_ok)
  qed
  then show ?thesis by (auto simp: I_def)
qed

lemma evaluated_ids:
  assumes "arena_ok k" "ids_are_indices k"
  shows "ids_are_indices (evaluated stack k)"
proof -
  let ?nb = "stack\<lparr>next_active := replicate MAX_ENTITIES 0\<rparr>"
  have okm: "arena_ok (evaluated stack k)" using assms evaluated_arena by simp
  have "\<forall>j < active_entity_count k. entity_id (entity_pool k ! j) = of_nat j"
    using assms by (simp add: ids_are_indices_iff)
  from visit_loop_ids [OF assms(1) this, of ?nb]
  have "\<forall>j < active_entity_count (evaluated stack k).
          entity_id (entity_pool (evaluated stack k) ! j) = of_nat j"
    using assms(1) entity_id_frame [OF written_keeps(5)]
    by (simp add: evaluated_nth) (simp add: evaluate_entities_def evaluated_def)
  with okm show ?thesis by (simp add: ids_are_indices_iff)
qed

lemma spawn_entity_ids:
  assumes "arena_ok k" "ids_are_indices k"
  shows "ids_are_indices (snd (spawn_entity k))"
proof (cases "active_entity_count k < MAX_ENTITIES")
  case False
  then show ?thesis using assms by (simp add: spawn_entity_full)
next
  case True
  have l: "length (entity_pool k) = MAX_ENTITIES" using assms by (simp add: arena_ok_def)
  have ids: "\<forall>j < active_entity_count k. entity_id (entity_pool k ! j) = of_nat j"
    using assms by (simp add: ids_are_indices_iff)
  have "\<forall>j < active_entity_count (snd (spawn_entity k)).
          entity_id (entity_pool (snd (spawn_entity k)) ! j) = of_nat j"
  proof (intro allI impI)
    fix j assume "j < active_entity_count (snd (spawn_entity k))"
    with True have "j < active_entity_count k \<or> j = active_entity_count k"
      by (auto simp: spawn_entity_count)
    then show "entity_id (entity_pool (snd (spawn_entity k)) ! j) = of_nat j"
      using ids spawn_entity_new(1) [OF True l] by (auto simp: spawn_entity_other)
  qed
  then show ?thesis
    using assms by (simp add: ids_are_indices_iff spawn_entity_arena_ok)
qed

lemma ids_distinct:
  assumes "arena_ok k" "ids_are_indices k"
  shows "distinct (map entity_id (live k))"
proof -
  have "inj_on (\<lambda>n. word_of_nat n :: u32) {0..<active_entity_count k}"
    using assms(1)
    by (intro inj_onI) (simp add: arena_ok_def word_of_nat_eq_iff take_bit_nat_eq_self)
  then have "distinct (map (\<lambda>n. word_of_nat n :: u32) [0..<active_entity_count k])"
    by (simp add: distinct_map)
  with assms(2) show ?thesis by (simp add: ids_are_indices_def)
qed

lemma collect_nothing:
  assumes "arena_ok k" "list_all unmarked (live k)"
  shows "live (collect_garbage k) = live k"
    and "active_entity_count (collect_garbage k) = active_entity_count k"
proof -
  have f: "filter unmarked (live k) = live k"
    using assms(2) by (simp add: list_all_iff)
  show "live (collect_garbage k) = live k"
    using assms(1) f by (simp add: live_def collect_garbage_prefix)
  show "active_entity_count (collect_garbage k) = active_entity_count k"
    using assms(1) f length_live [OF assms(1)] by (simp add: collect_garbage_count live_def)
qed

lemma collect_nothing_ids:
  assumes "arena_ok k" "list_all unmarked (live k)" "ids_are_indices k"
  shows "ids_are_indices (collect_garbage k)"
  using assms collect_nothing [OF assms(1,2)] by (simp add: ids_are_indices_def)

lemma collect_position:
  assumes ok: "arena_ok m" and i: "i < active_entity_count m"
    and u: "unmarked (entity_pool m ! i)"
  shows "new_index m i < active_entity_count (collect_garbage m)"
    and "entity_pool (collect_garbage m) ! new_index m i = entity_pool m ! i"
proof -
  have il: "i < length (live m)" using i ok by (simp add: length_live)
  have nth: "live m ! i = entity_pool m ! i" using i by (simp add: live_def)
  have tk: "take i (live m) = take i (entity_pool m)"
    using i by (simp add: live_def min_def)
  have l: "live (collect_garbage m) = filter unmarked (live m)"
    using ok by (simp add: live_def collect_garbage_prefix)
  have cnt: "active_entity_count (collect_garbage m) = length (filter unmarked (live m))"
    using ok by (simp add: collect_garbage_count live_def)
  show w: "new_index m i < active_entity_count (collect_garbage m)"
    using filter_position_less [OF il, of unmarked] u
    by (simp add: cnt new_index_def nth tk)
  have "filter unmarked (live m) ! new_index m i = entity_pool m ! i"
    using filter_nth_position [OF il, of unmarked] u by (simp add: new_index_def nth tk)
  moreover have "live (collect_garbage m) ! new_index m i = entity_pool (collect_garbage m) ! new_index m i"
    using w by (simp add: live_def)
  ultimately show "entity_pool (collect_garbage m) ! new_index m i = entity_pool m ! i"
    by (simp add: l)
qed

lemma spawn_entity_live:
  assumes "arena_ok k" "active_entity_count k < MAX_ENTITIES"
  shows "live (snd (spawn_entity k))
           = live k @ [entity_pool (snd (spawn_entity k)) ! active_entity_count k]"
proof -
  let ?c = "active_entity_count k" and ?p = "entity_pool (snd (spawn_entity k))"
  have l: "?c < length ?p" using assms by (simp add: arena_ok_def)
  have "take ?c ?p = take ?c (entity_pool k)"
    using l by (intro nth_take_lemma) (simp_all add: spawn_entity_other)
  moreover have "take (Suc ?c) ?p = take ?c ?p @ [?p ! ?c]"
    using l by (rule take_Suc_conv_app_nth)
  ultimately show ?thesis
    using assms(2) by (simp add: live_def spawn_entity_count)
qed

lemma initialize_entity_count:
  "active_entity_count (initialize_entity td g k) =
     (if MAX_ENTITIES \<le> active_entity_count k then active_entity_count k else active_entity_count k + 1)"
  by (simp add: initialize_entity_def Let_def)

lemma initialize_entity_ok:
  assumes "arena_ok k" "ids_are_indices k"
  shows "arena_ok (initialize_entity td g k) \<and> ids_are_indices (initialize_entity td g k)"
proof (cases "active_entity_count k < MAX_ENTITIES")
  case False
  then show ?thesis using assms by (simp add: initialize_entity_def)
next
  case True
  let ?k = "initialize_entity td g k"
  have l: "length (entity_pool k) = MAX_ENTITIES" using assms by (simp add: arena_ok_def)
  have ok: "arena_ok ?k"
    using True l by (simp add: arena_ok_def initialize_entity_def Let_def)
  have ids: "\<forall>j < active_entity_count k. entity_id (entity_pool k ! j) = of_nat j"
    using assms by (simp add: ids_are_indices_iff)
  have "\<forall>j < active_entity_count ?k. entity_id (entity_pool ?k ! j) = of_nat j"
  proof (intro allI impI)
    fix j assume "j < active_entity_count ?k"
    with True have "j < active_entity_count k \<or> j = active_entity_count k"
      by (auto simp: initialize_entity_count)
    then show "entity_id (entity_pool ?k ! j) = of_nat j"
      using ids True l by (auto simp: initialize_entity_def Let_def)
  qed
  with ok show ?thesis by (simp add: ids_are_indices_iff)
qed

lemma initialize_emergent_entities_ids:
  assumes "arena_ok k" "active_entity_count k = 0"
  shows "arena_ok (initialize_emergent_entities k) \<and>
         ids_are_indices (initialize_emergent_entities k) \<and>
         active_entity_count (initialize_emergent_entities k) = INITIAL_ENTITIES"
proof -
  define hs where "hs = (if retrieve_holographic_memory
        (hash_signature (create_holographic_vector (cstr ''GENOME_SIMPLE_RULE_1''))) (holo_system k) = NULL
      then encode_holographic_memory (create_holographic_vector (cstr ''GENOME_SIMPLE_RULE_1''))
             (create_holographic_vector (cstr ''GENOME_SIMPLE_RULE_1'')) (holo_system k)
      else holo_system k)"
  define g where "g = (if retrieve_holographic_memory
        (hash_signature (create_holographic_vector (cstr ''GENOME_SIMPLE_RULE_1''))) (holo_system k) = NULL
      then Local_simple_genome_rule
      else retrieve_holographic_memory
        (hash_signature (create_holographic_vector (cstr ''GENOME_SIMPLE_RULE_1''))) (holo_system k))"
  define td where "td = create_holographic_vector (cstr ''TRAIT_DORMANT'')"
  define k0 where "k0 = k\<lparr>holo_system := hs\<rparr>"
  define k1 where "k1 = initialize_entity td g k0"
  define k2 where "k2 = initialize_entity td g k1"
  define k3 where "k3 = initialize_entity td g k2"
  have e: "initialize_emergent_entities k = k3"
    by (simp add: initialize_emergent_entities_def Let_def k3_def k2_def k1_def k0_def hs_def g_def
        td_def numeral_3_eq_3)
  have 0: "arena_ok k0 \<and> ids_are_indices k0" "active_entity_count k0 = 0"
    using assms by (simp_all add: k0_def arena_ok_def ids_are_indices_def live_def)
  have 1: "arena_ok k1 \<and> ids_are_indices k1" "active_entity_count k1 = 1"
    using 0 initialize_entity_ok [of k0 td g] by (simp_all add: k1_def initialize_entity_count)
  have 2: "arena_ok k2 \<and> ids_are_indices k2" "active_entity_count k2 = 2"
    using 1 initialize_entity_ok [of k1 td g] by (simp_all add: k2_def initialize_entity_count)
  have 3: "arena_ok k3 \<and> ids_are_indices k3" "active_entity_count k3 = 3"
    using 2 initialize_entity_ok [of k2 td g] by (simp_all add: k3_def initialize_entity_count)
  from 3 e show ?thesis by simp
qed


lemma three_dormant_evaluated:
  "map (\<lambda>e. (entity_id e, marked_for_gc e))
     (live (evaluated zero_stack
        (arena_of [sample_entity 0 0 1000 50, sample_entity 1 0 1000 0, sample_entity 2 0 1000 50])))
   = [(0, 0), (1, 1), (2, 0)]"
  "new_index (evaluated zero_stack
        (arena_of [sample_entity 0 0 1000 50, sample_entity 1 0 1000 0, sample_entity 2 0 1000 50])) 2 = 1"
  "unmarked (entity_pool (evaluated zero_stack
        (arena_of [sample_entity 0 0 1000 50, sample_entity 1 0 1000 0, sample_entity 2 0 1000 50])) ! 2)"
  by (simp_all add: new_index_def unmarked_def evaluated_def evaluate_entities_def visit_loop.simps
      visit_entity_def buffer_entity_def apply_rules_def neighbor_active_def prev_idx_def next_idx_def
      align_task_def gc_mark_def apply_changes_def apply_entity_def live_def
      arena_of_def sample_entity_def zero_entity_def zero_stack_def zero_vector_def Let_def)

lemma three_dormant_ids:
  "ids_are_indices (arena_of [sample_entity 0 0 1000 50, sample_entity 1 0 1000 0, sample_entity 2 0 1000 50])"
  by (simp add: ids_are_indices_def live_arena_of)
     (simp add: arena_of_def sample_entity_def zero_entity_def upt_conv_Cons)




section \<open>Neighbours read during a cycle\<close>

lemma ring_of_six_snapshot:
  "active_entity_count ring_of_six = 6"
  "is_active (entity_pool ring_of_six ! 5) = 1"
  "is_active (entity_pool ring_of_six ! prev_idx ring_of_six 5) = 0"
  "is_active (entity_pool ring_of_six ! next_idx ring_of_six 5) = 0"
  "neighbor_active ring_of_six 5 = 0"
  "next_active (fst (apply_rules 5 (zero_stack, ring_of_six))) ! 5 = 0"
  by (simp_all add: ring_of_six_def apply_rules_def neighbor_active_def prev_idx_def next_idx_def
      arena_of_def sample_entity_def zero_entity_def zero_stack_def Let_def)

lemma replicate_update_0:
  "(replicate n x)[0 := y] = (if n = 0 then [] else y # replicate (n - 1) x)"
  by (cases n) simp_all

lemma ring_of_six_update:
  "map (\<lambda>e. (entity_id e, is_active e, is_mutant e)) (live (update_entities zero_stack ring_of_six))
     = [(0, 1, 0), (1, 1, 0), (2, 1, 0), (3, 1, 0), (4, 1, 0), (5, 1, 0), (6, 1, 1)]"
  by (simp add: ring_of_six_def update_entities_def evaluate_entities_def visit_loop.simps visit_entity_def
      buffer_entity_def apply_rules_def neighbor_active_def prev_idx_def next_idx_def
      spawn_entity_def mutate_child_def retrieve_holographic_memory_def encode_holographic_memory_def
      align_task_def gc_mark_def apply_changes_def apply_entity_def collect_garbage_def
      collect_step_def live_def arena_of_def sample_entity_def zero_entity_def zero_stack_def
      zero_vector_def zero_store_def Let_def replicate_update_0)

text \<open>
  Claim C1 fails on the arena \<open>ring_of_six\<close>: six live entities, of which 1, 2, 3 and 5 are
  active. Before the cycle entity 5 is active and both its ring neighbours, 4 and 0, are
  dormant, so the rules applied to the arena as it stands before the cycle put it to sleep
  (its \<open>next_active\<close> cell becomes 0). In \<open>update_entities\<close> entity 2 spawns first: the child
  is written to slot 6 at once and \<open>active_entity_count\<close> becomes 7. When entity 5 is visited
  its next neighbour is slot 6, the active child, no rule matches, and after the cycle entity 5
  is still active.
\<close>

theorem update_observes_spawned_child:
  "active_entity_count ring_of_six = 6 \<and>
   is_active (entity_pool ring_of_six ! 5) = 1 \<and>
   is_active (entity_pool ring_of_six ! prev_idx ring_of_six 5) = 0 \<and>
   is_active (entity_pool ring_of_six ! next_idx ring_of_six 5) = 0 \<and>
   next_active (fst (apply_rules 5 (zero_stack, ring_of_six))) ! 5 = 0 \<and>
   map (\<lambda>e. (entity_id e, is_active e, is_mutant e)) (live (update_entities zero_stack ring_of_six))
     = [(0, 1, 0), (1, 1, 0), (2, 1, 0), (3, 1, 0), (4, 1, 0), (5, 1, 0), (6, 1, 1)]"
  using ring_of_six_snapshot ring_of_six_update by simp

end
